theory Spec2Isabelle
  imports Main
begin

section \<open>Spend ledger (services/spending.ts, class SpendingTracker)\<close>

text \<open>
  Amounts are JavaScript \<^verbatim>\<open>bigint\<close> values and are modelled as \<^typ>\<open>int\<close>.
  A \<^verbatim>\<open>Date\<close> is modelled by its millisecond value; two dates are compared
  through that value, as the \<^verbatim>\<open>>=\<close> of the source does.

  Field names shared by several interfaces of the source carry a short prefix here
  (\<open>rec_\<close> for \<^verbatim>\<open>SpendingRecord\<close>), because record fields of one theory share a
  name space.
\<close>

record SpendingRecord =
  rec_timestamp :: int
  rec_amount :: int
  rec_asset :: string
  rec_serviceId :: string
  rec_serviceName :: string
  rec_txId :: "string option"

record SpendingTracker =
  records :: "SpendingRecord list"
  maxPerTask :: int
  maxPerDay :: int

text \<open>The constructor: no records, the two ceilings as given.\<close>

definition newSpendingTracker :: "int \<Rightarrow> int \<Rightarrow> SpendingTracker" where
  "newSpendingTracker perTask perDay =
     \<lparr>records = [], maxPerTask = perTask, maxPerDay = perDay\<rparr>"

text \<open>
  \<^verbatim>\<open>recordPayment\<close> pushes one record stamped with the current time. The clock read
  \<^verbatim>\<open>new Date()\<close> is the first argument \<open>now\<close>.
\<close>

definition recordPayment ::
  "int \<Rightarrow> int \<Rightarrow> string \<Rightarrow> string \<Rightarrow> string \<Rightarrow> string option
     \<Rightarrow> SpendingTracker \<Rightarrow> SpendingTracker" where
  "recordPayment now amount asset serviceId serviceName txId t =
     t\<lparr>records := records t @
        [\<lparr>rec_timestamp = now, rec_amount = amount, rec_asset = asset,
          rec_serviceId = serviceId, rec_serviceName = serviceName,
          rec_txId = txId\<rparr>]\<rparr>"

text \<open>
  A sequence of \<^verbatim>\<open>recordPayment\<close> calls, each with the clock value at the call and
  its five arguments, applied from left to right.
\<close>

type_synonym payment_call = "int \<times> int \<times> string \<times> string \<times> string \<times> string option"

fun recordAll :: "payment_call list \<Rightarrow> SpendingTracker \<Rightarrow> SpendingTracker" where
  "recordAll [] t = t"
| "recordAll ((now, amount, asset, serviceId, serviceName, txId) # cs) t =
     recordAll cs (recordPayment now amount asset serviceId serviceName txId t)"

text \<open>The record that one call of \<^verbatim>\<open>recordPayment\<close> pushes.\<close>

definition mkRecord :: "payment_call \<Rightarrow> SpendingRecord" where
  "mkRecord c =
     (case c of (now, amount, asset, serviceId, serviceName, txId) \<Rightarrow>
        \<lparr>rec_timestamp = now, rec_amount = amount, rec_asset = asset,
         rec_serviceId = serviceId, rec_serviceName = serviceName, rec_txId = txId\<rparr>)"

text \<open>
  \<^verbatim>\<open>getTodaySpent\<close>: the source computes local midnight of the current day
  (\<^verbatim>\<open>new Date(); setHours(0,0,0,0)\<close>); that instant is the argument \<open>today\<close>.
  The \<^verbatim>\<open>reduce\<close> is a left fold starting from \<^verbatim>\<open>BigInt(0)\<close>.
\<close>

definition getTodaySpent :: "int \<Rightarrow> SpendingTracker \<Rightarrow> int" where
  "getTodaySpent today t =
     foldl (\<lambda>sum r. sum + rec_amount r) 0
       (filter (\<lambda>r. today \<le> rec_timestamp r \<and> rec_asset r = ''STX'') (records t))"

subsection \<open>Rendering of amounts (utils/formatting.ts, formatSTX)\<close>

text \<open>
  \<^verbatim>\<open>formatSTX\<close> divides by one million and prints six decimals. The model prints the
  exact decimal expansion, which is what the source prints as long as the amount is small
  enough for the floating-point division to be exact to six places.
\<close>

fun show_nat :: "nat \<Rightarrow> string" where
  "show_nat n =
     (if n < 10 then [char_of (48 + n)]
      else show_nat (n div 10) @ [char_of (48 + n mod 10)])"

text \<open>The decimal text of an integer, as \<^verbatim>\<open>toString\<close> gives it for a \<^verbatim>\<open>bigint\<close>.\<close>

definition show_int :: "int \<Rightarrow> string" where
  "show_int n = (if n < 0 then ''-'' else []) @ show_nat (nat \<bar>n\<bar>)"

definition pad6 :: "string \<Rightarrow> string" where
  "pad6 s = replicate (6 - length s) CHR ''0'' @ s"

definition formatSTX :: "int \<Rightarrow> string" where
  "formatSTX microSTX =
     (if microSTX < 0 then ''-'' else '''') @
     show_nat (nat \<bar>microSTX\<bar> div 1000000) @ ''.'' @
     pad6 (show_nat (nat \<bar>microSTX\<bar> mod 1000000)) @ '' STX''"

subsection \<open>Plain objects used as dictionaries\<close>

text \<open>
  The source keeps two dictionaries in plain objects created by \<^verbatim>\<open>{}\<close>: the breakdown
  \<^verbatim>\<open>todayByService\<close> and the context variables of a run. Reading a key that is not an
  own property of such an object gives the member it inherits from
  \<^verbatim>\<open>Object.prototype\<close>, if there is one: a built-in function for the eleven names below,
  and \<^verbatim>\<open>Object.prototype\<close> itself for \<^verbatim>\<open>__proto__\<close>. Assigning to the key
  \<^verbatim>\<open>__proto__\<close> calls the inherited setter and creates no own property.

  Converted to a string, a built-in function reads
  \<^verbatim>\<open>function name() { [native code] }\<close>, and \<^verbatim>\<open>Object.prototype\<close> reads
  \<^verbatim>\<open>[object Object]\<close>.
\<close>

definition objectPrototypeFunctions :: "string list" where
  "objectPrototypeFunctions =
     [''constructor'', ''__defineGetter__'', ''__defineSetter__'', ''hasOwnProperty'',
      ''__lookupGetter__'', ''__lookupSetter__'', ''isPrototypeOf'',
      ''propertyIsEnumerable'', ''toString'', ''valueOf'', ''toLocaleString'']"

text \<open>The name of the function that a key inherits: \<^verbatim>\<open>constructor\<close> is \<^verbatim>\<open>Object\<close>.\<close>

definition inheritedFunction :: "string \<Rightarrow> string option" where
  "inheritedFunction key =
     (if key \<in> set objectPrototypeFunctions
      then Some (if key = ''constructor'' then ''Object'' else key)
      else None)"

definition functionText :: "string \<Rightarrow> string" where
  "functionText name = ''function '' @ name @ ''() { [native code] }''"

text \<open>The string that the inherited member of a key converts to, if the key has one.\<close>

definition inheritedText :: "string \<Rightarrow> string option" where
  "inheritedText key =
     (if key = ''__proto__'' then Some ''[object Object]''
      else map_option functionText (inheritedFunction key))"

subsection \<open>canSpend and getSummary\<close>

record SpendCheck =
  allowed :: bool
  reason :: "string option"

definition canSpend :: "int \<Rightarrow> int \<Rightarrow> SpendingTracker \<Rightarrow> SpendCheck" where
  "canSpend today amount t =
     (if amount > maxPerTask t then
        \<lparr>allowed = False,
         reason = Some (''Amount '' @ formatSTX amount @ '' exceeds per-task limit of '' @
                        formatSTX (maxPerTask t))\<rparr>
      else
        let todaySpent = getTodaySpent today t in
        if todaySpent + amount > maxPerDay t then
          \<lparr>allowed = False,
           reason = Some (''Would exceed daily limit. Spent today: '' @ formatSTX todaySpent @
                          '', Limit: '' @ formatSTX (maxPerDay t))\<rparr>
        else \<lparr>allowed = True, reason = None\<rparr>)"

text \<open>
  A value stored in \<^verbatim>\<open>todayByService\<close>. Its declared type is \<^verbatim>\<open>bigint\<close>; the
  operator \<^verbatim>\<open>+\<close> gives a string instead as soon as one operand is not a number.
\<close>

datatype slot = Amount int | Text string

record TodaySummary =
  today_total :: int
  today_transactions :: nat
  today_byService :: "string \<rightharpoonup> slot"

record AllTimeSummary =
  allTime_total :: int
  allTime_transactions :: nat

record LimitsSummary =
  perTask :: int
  perDay :: int
  remainingToday :: int

record SpendingSummary =
  today :: TodaySummary
  allTime :: AllTimeSummary
  limits :: LimitsSummary

text \<open>
  One pass of the \<^verbatim>\<open>for\<close> loop of \<^verbatim>\<open>getSummary\<close> for a record in the primary
  asset: \<^verbatim>\<open>todayByService[name] = (todayByService[name] || BigInt(0)) + amount\<close>. The
  map \<open>m\<close> holds the own properties of \<^verbatim>\<open>todayByService\<close>. The read finds an own
  property, else an inherited member, else \<^verbatim>\<open>undefined\<close>. \<^verbatim>\<open>||\<close> replaces
  \<^verbatim>\<open>undefined\<close>, \<^verbatim>\<open>0n\<close> and the empty string by \<^verbatim>\<open>BigInt(0)\<close>. \<^verbatim>\<open>+\<close> adds two
  big integers and otherwise appends the decimal text of the amount to the text of the
  left operand. The write creates or replaces an own property, except for the key
  \<^verbatim>\<open>__proto__\<close>.
\<close>

definition addToService :: "string \<Rightarrow> int \<Rightarrow> (string \<rightharpoonup> slot) \<Rightarrow> (string \<rightharpoonup> slot)" where
  "addToService name amount m =
     (let current = (case m name of
                       Some v \<Rightarrow> Some v
                     | None \<Rightarrow> map_option Text (inheritedText name));
          updated = (case current of
                       None \<Rightarrow> Amount (0 + amount)
                     | Some (Amount a) \<Rightarrow> Amount (a + amount)
                     | Some (Text t) \<Rightarrow>
                         if t = [] then Amount (0 + amount)
                         else Text (t @ show_int amount))
      in if name = ''__proto__'' then m else m(name \<mapsto> updated))"

fun byServiceLoop :: "SpendingRecord list \<Rightarrow> (string \<rightharpoonup> slot) \<Rightarrow> (string \<rightharpoonup> slot)" where
  "byServiceLoop [] m = m"
| "byServiceLoop (r # rs) m =
     byServiceLoop rs
       (if rec_asset r = ''STX'' then addToService (rec_serviceName r) (rec_amount r) m
        else m)"

definition getSummary :: "int \<Rightarrow> SpendingTracker \<Rightarrow> SpendingSummary" where
  "getSummary td t =
     (let todayRecords = filter (\<lambda>r. td \<le> rec_timestamp r) (records t);
          todayByService = byServiceLoop todayRecords Map.empty;
          todayTotal = getTodaySpent td t;
          allTimeTotal = foldl (\<lambda>sum r. sum + rec_amount r) 0
                           (filter (\<lambda>r. rec_asset r = ''STX'') (records t))
      in \<lparr>today = \<lparr>today_total = todayTotal,
                    today_transactions = length todayRecords,
                    today_byService = todayByService\<rparr>,
          allTime = \<lparr>allTime_total = allTimeTotal,
                      allTime_transactions = length (records t)\<rparr>,
          limits = \<lparr>perTask = maxPerTask t, perDay = maxPerDay t,
                     remainingToday =
                       (if maxPerDay t > todayTotal then maxPerDay t - todayTotal else 0)\<rparr>\<rparr>)"

section \<open>History log of the demo server (addToHistory)\<close>

text \<open>
  The entry is stored as it is; \<^verbatim>\<open>totalCostSTX\<close> is a floating-point number of the
  source that the log never inspects and is kept here as a count of micro-units.
\<close>

record HistoryEntry =
  he_id :: string
  he_query :: string
  he_stepCount :: nat
  he_totalCostSTX :: int
  he_durationMs :: int
  he_status :: string
  he_txHashes :: "string list"
  he_timestamp :: string

definition MAX_HISTORY :: nat where
  "MAX_HISTORY = 50"

text \<open>\<^verbatim>\<open>unshift\<close> puts the entry in front; \<^verbatim>\<open>pop\<close> removes the last element.\<close>

definition addToHistory :: "HistoryEntry \<Rightarrow> HistoryEntry list \<Rightarrow> HistoryEntry list" where
  "addToHistory entry pipelineHistory =
     (let h = entry # pipelineHistory
      in if length h > MAX_HISTORY then butlast h else h)"

text \<open>Inserting a sequence of entries, oldest first.\<close>

fun addAllToHistory :: "HistoryEntry list \<Rightarrow> HistoryEntry list \<Rightarrow> HistoryEntry list" where
  "addAllToHistory [] h = h"
| "addAllToHistory (e # es) h = addAllToHistory es (addToHistory e h)"

text \<open>A history entry that differs from every other \<open>mkEntry\<close> in its id.\<close>

definition mkEntry :: "nat \<Rightarrow> HistoryEntry" where
  "mkEntry n =
     \<lparr>he_id = show_nat n, he_query = ''Get Bitcoin price'', he_stepCount = n,
      he_totalCostSTX = 0, he_durationMs = 0, he_status = ''success'',
      he_txHashes = [], he_timestamp = ''2026-01-01T00:00:00.000Z''\<rparr>"

section \<open>Request payloads and variable interpolation (agent/orchestrator.ts)\<close>

text \<open>
  Payloads, step outputs and context variables are JavaScript values of type
  \<^verbatim>\<open>any\<close>. The model has the values JSON can carry, \<^verbatim>\<open>undefined\<close>, and the
  built-in functions by their names; numbers are kept as integers, since no function
  here computes with them. An object is the list of its entries in the order
  \<^verbatim>\<open>Object.entries\<close> yields them, none of them named \<^verbatim>\<open>__proto__\<close>. Strings are
  character lists; of a character only its membership in the ASCII class \<^verbatim>\<open>\w\<close>
  matters.
\<close>

datatype json =
    JUndefined
  | JNull
  | JBool bool
  | JNum int
  | JStr string
  | JArr "json list"
  | JObj "(string \<times> json) list"
  | JFunction string

text \<open>
  Reading a key of a plain object whose own properties are the map \<open>own\<close>: the own
  property, else the member inherited from \<^verbatim>\<open>Object.prototype\<close>, else
  \<^verbatim>\<open>undefined\<close>. \<^verbatim>\<open>Object.prototype\<close> itself has no enumerable property.
\<close>

definition inheritedProperty :: "string \<Rightarrow> json" where
  "inheritedProperty key =
     (if key = ''__proto__'' then JObj []
      else case inheritedFunction key of Some name \<Rightarrow> JFunction name | None \<Rightarrow> JUndefined)"

definition getProperty :: "(string \<rightharpoonup> json) \<Rightarrow> string \<Rightarrow> json" where
  "getProperty own key = (case own key of Some v \<Rightarrow> v | None \<Rightarrow> inheritedProperty key)"

text \<open>Truthiness as \<^verbatim>\<open>!data\<close> and \<^verbatim>\<open>&&\<close> read it.\<close>

definition truthy :: "json \<Rightarrow> bool" where
  "truthy v =
     (case v of JUndefined \<Rightarrow> False | JNull \<Rightarrow> False | JBool b \<Rightarrow> b
      | JNum n \<Rightarrow> n \<noteq> 0 | JStr s \<Rightarrow> s \<noteq> [] | _ \<Rightarrow> True)"

text \<open>The class \<^verbatim>\<open>\w\<close> of the regular expression: digits, letters and underscore.\<close>

definition isWordChar :: "char \<Rightarrow> bool" where
  "isWordChar c =
     (let n = (of_char c :: nat)
      in (48 \<le> n \<and> n \<le> 57) \<or> (65 \<le> n \<and> n \<le> 90) \<or> n = 95 \<or> (97 \<le> n \<and> n \<le> 122))"

text \<open>
  One attempt to match \<^verbatim>\<open>/\{\{(\w+)\}\}/\<close> at the start of \<open>s\<close>: two opening braces,
  the longest non-empty run of word characters, two closing braces. The result is the
  captured key and the text after the match. (A shorter run of word characters can never
  be followed by a brace, so the greedy run is the only candidate.)
\<close>

definition matchPlaceholder :: "string \<Rightarrow> (string \<times> string) option" where
  "matchPlaceholder s =
     (if take 2 s = ''{{'' then
        let key = takeWhile isWordChar (drop 2 s);
            r = dropWhile isWordChar (drop 2 s)
        in if key \<noteq> [] \<and> take 2 r = ''}}'' then Some (key, drop 2 r) else None
      else None)"

lemma matchPlaceholder_shorter:
  "matchPlaceholder s = Some (key, rest) \<Longrightarrow> length rest < length s"
proof -
  assume a: "matchPlaceholder s = Some (key, rest)"
  then have r: "rest = drop 2 (dropWhile isWordChar (drop 2 s))" and t: "take 2 s = ''{{''"
    by (auto simp add: matchPlaceholder_def Let_def split: if_splits)
  have "length (dropWhile isWordChar (drop 2 s)) \<le> length (drop 2 s)"
    by (rule length_dropWhile_le)
  moreover have "length (take 2 s) = 2" using t by simp
  then have "length s \<ge> 2" by simp
  ultimately show ?thesis using r by simp
qed

text \<open>
  \<^verbatim>\<open>String.prototype.replace\<close> with a global regular expression and a callback: scan
  from the left; where the expression matches, emit the callback's result for the captured
  key and go on after the match; elsewhere copy one character and go on.
\<close>

function replacePlaceholders :: "(string \<Rightarrow> string) \<Rightarrow> string \<Rightarrow> string" where
  "replacePlaceholders f [] = []"
| "replacePlaceholders f (c # cs) =
     (case matchPlaceholder (c # cs) of
        Some (key, rest) \<Rightarrow> f key @ replacePlaceholders f rest
      | None \<Rightarrow> c # replacePlaceholders f cs)"
  by pat_completeness auto
termination
  by (relation "measure (\<lambda>(f, s). length s)") (auto dest: matchPlaceholder_shorter)

text \<open>
  The string branch of \<^verbatim>\<open>interpolateVariables\<close>. \<open>variables\<close> holds the own
  properties of the variables object, a plain object, and \<^verbatim>\<open>variables[key]\<close> is
  \<^const>\<open>getProperty\<close>. \<^verbatim>\<open>JSON.stringify\<close> is a built-in; the parameter
  \<open>stringify\<close> stands for it together with the conversion to a string that
  \<^verbatim>\<open>replace\<close> applies to what the callback returns (for a function
  \<^verbatim>\<open>JSON.stringify\<close> returns \<^verbatim>\<open>undefined\<close>, which converts to the text
  \<^verbatim>\<open>undefined\<close>).
\<close>

definition interpolateString ::
  "(json \<Rightarrow> string) \<Rightarrow> (string \<rightharpoonup> json) \<Rightarrow> string \<Rightarrow> string" where
  "interpolateString stringify variables s =
     replacePlaceholders
       (\<lambda>key. if getProperty variables key \<noteq> JUndefined
               then stringify (getProperty variables key)
               else ''{{'' @ key @ ''}}'') s"

fun interpolateVariables ::
  "(json \<Rightarrow> string) \<Rightarrow> (string \<rightharpoonup> json) \<Rightarrow> json \<Rightarrow> json" where
  "interpolateVariables stringify variables data =
     (if \<not> truthy data then data
      else case data of
        JStr s \<Rightarrow> JStr (interpolateString stringify variables s)
      | JArr items \<Rightarrow> JArr (map (interpolateVariables stringify variables) items)
      | JObj entries \<Rightarrow>
          JObj (map (\<lambda>(key, value). (key, interpolateVariables stringify variables value))
                  entries)
      | _ \<Rightarrow> data)"

declare interpolateVariables.simps [simp del]

text \<open>
  A concrete stand-in for \<^verbatim>\<open>JSON.stringify\<close>, used where a run is evaluated on
  concrete values, with the conversion to a string included. It renders values that
  have no \<^verbatim>\<open>undefined\<close> or function member and whose strings need no escaping.
\<close>

fun jsonText :: "json \<Rightarrow> string"
  and jsonItems :: "json list \<Rightarrow> string"
  and jsonMembers :: "(string \<times> json) list \<Rightarrow> string" where
  "jsonText JUndefined = ''undefined''"
| "jsonText JNull = ''null''"
| "jsonText (JBool b) = (if b then ''true'' else ''false'')"
| "jsonText (JNum n) = (if n < 0 then ''-'' else []) @ show_nat (nat \<bar>n\<bar>)"
| "jsonText (JStr s) = [CHR 0x22] @ s @ [CHR 0x22]"
| "jsonText (JArr items) = ''['' @ jsonItems items @ '']''"
| "jsonText (JObj entries) = ''{'' @ jsonMembers entries @ ''}''"
| "jsonText (JFunction name) = ''undefined''"
| "jsonItems [] = []"
| "jsonItems [x] = jsonText x"
| "jsonItems (x # y # r) = jsonText x @ '','' @ jsonItems (y # r)"
| "jsonMembers [] = []"
| "jsonMembers [(k, v)] = [CHR 0x22] @ k @ [CHR 0x22] @ '':'' @ jsonText v"
| "jsonMembers ((k, v) # e # r) =
     [CHR 0x22] @ k @ [CHR 0x22] @ '':'' @ jsonText v @ '','' @ jsonMembers (e # r)"

section \<open>Plan builder (agent/planner.ts, class TaskPlanner)\<close>

subsection \<open>Data (types/index.ts)\<close>

text \<open>
  Of a service descriptor the fields that the planner, the step executor and the payment
  service read. \<^verbatim>\<open>price.amount\<close> is a decimal string that the source always reads
  through \<^verbatim>\<open>BigInt\<close>; the model keeps the integer. Optional fields are options.
  Two descriptors are the same service when they are equal as values.
\<close>

record X402Service =
  svc_id :: string
  svc_name :: string
  svc_description :: string
  svc_url :: string
  svc_amount :: int
  svc_asset :: string
  svc_category :: "string option"
  svc_tags :: "string list option"

record TaskStep =
  step_id :: string
  step_description :: string
  step_serviceId :: string
  step_requestData :: json
  step_required :: "bool option"
  step_estimatedCost :: "int option"

record TaskPlan =
  plan_id :: string
  plan_query :: string
  plan_description :: string
  plan_steps :: "TaskStep list"
  plan_estimatedTotalCost :: int
  plan_outputTemplate :: json

subsection \<open>Strings\<close>

text \<open>\<^verbatim>\<open>toLowerCase\<close> and \<^verbatim>\<open>toUpperCase\<close> on ASCII letters.\<close>

definition toLowerCase :: "string \<Rightarrow> string" where
  "toLowerCase s =
     map (\<lambda>c. let n = (of_char c :: nat)
               in if 65 \<le> n \<and> n \<le> 90 then char_of (n + 32) else c) s"

definition toUpperCase :: "string \<Rightarrow> string" where
  "toUpperCase s =
     map (\<lambda>c. let n = (of_char c :: nat)
               in if 97 \<le> n \<and> n \<le> 122 then char_of (n - 32) else c) s"

text \<open>\<^verbatim>\<open>s.includes(w)\<close>: \<open>w\<close> occurs in \<open>s\<close> as a contiguous substring.\<close>

fun str_includes :: "string \<Rightarrow> string \<Rightarrow> bool" where
  "str_includes [] w = (w = [])"
| "str_includes (c # cs) w = (take (length w) (c # cs) = w \<or> str_includes cs w)"

text \<open>The class \<^verbatim>\<open>\s\<close> on ASCII: tab, line feed, vertical tab, form feed, return, space.\<close>

definition isSpace :: "char \<Rightarrow> bool" where
  "isSpace c = (let n = (of_char c :: nat) in (9 \<le> n \<and> n \<le> 13) \<or> n = 32)"

text \<open>
  Splitting at white space. \<^verbatim>\<open>split(/\s+/)\<close> yields no empty string between two
  adjacent white-space characters where this function does; the caller drops every string
  shorter than three characters, so the difference does not show.
\<close>

fun splitAcc :: "string \<Rightarrow> string \<Rightarrow> string list" where
  "splitAcc cur [] = [rev cur]"
| "splitAcc cur (c # cs) =
     (if isSpace c then rev cur # splitAcc [] cs else splitAcc (c # cur) cs)"

definition queryWords :: "string \<Rightarrow> string list" where
  "queryWords queryLower = filter (\<lambda>w. length w \<ge> 3) (splitAcc [] queryLower)"

subsection \<open>The regular expressions of the task patterns\<close>

text \<open>
  The constructs that the eleven patterns use: a literal, sequence, alternative, an
  optional part and \<^verbatim>\<open>\s*\<close>. \<open>rx_rests r s\<close> lists what is left of \<open>s\<close> after
  each way of matching \<open>r\<close> at its start; \<open>rx_test\<close> is \<^verbatim>\<open>RegExp.test\<close>, a match
  anywhere. The patterns carry the flag \<^verbatim>\<open>i\<close> and are applied to the lower-cased
  query; their literals are lower case, so they are matched as they stand.
\<close>

datatype rx = Lit string | Seq rx rx | Alt rx rx | Opt rx | Spaces

fun rx_rests :: "rx \<Rightarrow> string \<Rightarrow> string list" where
  "rx_rests (Lit w) s = (if take (length w) s = w then [drop (length w) s] else [])"
| "rx_rests (Seq a b) s = concat (map (rx_rests b) (rx_rests a s))"
| "rx_rests (Alt a b) s = rx_rests a s @ rx_rests b s"
| "rx_rests (Opt a) s = rx_rests a s @ [s]"
| "rx_rests Spaces s =
     map (\<lambda>k. drop k s) (rev [0..<Suc (length (takeWhile isSpace s))])"

fun rx_test :: "rx \<Rightarrow> string \<Rightarrow> bool" where
  "rx_test r [] = (rx_rests r [] \<noteq> [])"
| "rx_test r (c # cs) = (rx_rests r (c # cs) \<noteq> [] \<or> rx_test r cs)"

record TaskPattern =
  tp_pattern :: rx
  tp_category :: string
  tp_keywords :: "string list"

definition newsWords :: rx where
  "newsWords =
     Alt (Lit ''news'')
       (Alt (Seq (Lit ''headline'') (Opt (Lit ''s''))) (Seq (Lit ''update'') (Opt (Lit ''s''))))"

definition stacksOpt :: rx where
  "stacksOpt = Seq (Lit ''stack'') (Opt (Lit ''s''))"

definition taskPatterns :: "TaskPattern list" where
  "taskPatterns =
     [\<lparr>tp_pattern = Seq (Lit ''bitcoin'') (Seq Spaces newsWords),
       tp_category = ''news'', tp_keywords = [''bitcoin'', ''news'']\<rparr>,
      \<lparr>tp_pattern = Seq stacksOpt (Seq Spaces newsWords),
       tp_category = ''news'', tp_keywords = [''stacks'', ''news'']\<rparr>,
      \<lparr>tp_pattern = newsWords,
       tp_category = ''news'', tp_keywords = [''news'']\<rparr>,
      \<lparr>tp_pattern = Seq (Lit ''bitcoin'') (Seq Spaces (Lit ''price'')),
       tp_category = ''market'', tp_keywords = [''bitcoin'', ''price'', ''btc'']\<rparr>,
      \<lparr>tp_pattern = Alt (Seq (Lit ''stx'') (Seq Spaces (Lit ''price'')))
                         (Seq stacksOpt (Seq Spaces (Lit ''price''))),
       tp_category = ''market'', tp_keywords = [''stx'', ''price'']\<rparr>,
      \<lparr>tp_pattern = Seq (Lit ''blockchain'') (Seq Spaces (Lit ''info'')),
       tp_category = ''blockchain'', tp_keywords = [''blockchain'', ''info'']\<rparr>,
      \<lparr>tp_pattern = Alt (Lit ''summarize'') (Lit ''summary''),
       tp_category = ''ai'', tp_keywords = [''summarize'', ''ai'']\<rparr>,
      \<lparr>tp_pattern = Alt (Lit ''sentiment'') (Lit ''analyze''),
       tp_category = ''ai'', tp_keywords = [''sentiment'', ''analysis'']\<rparr>,
      \<lparr>tp_pattern = Lit ''translate'',
       tp_category = ''ai'', tp_keywords = [''translate'', ''language'']\<rparr>,
      \<lparr>tp_pattern = Alt (Lit ''tweet'') (Alt (Lit ''post'') (Lit ''social'')),
       tp_category = ''generation'', tp_keywords = [''tweet'', ''generate'', ''social'']\<rparr>,
      \<lparr>tp_pattern = Lit ''report'',
       tp_category = ''generation'', tp_keywords = [''report'', ''generate'']\<rparr>]"

subsection \<open>Array helpers\<close>

text \<open>
  \<^verbatim>\<open>Array.prototype.sort\<close> with a comparator whose sign orders the elements: a stable
  insertion sort. \<^verbatim>\<open>slice(0, k)\<close> counts a negative \<open>k\<close> from the end.
\<close>

fun insertBy :: "('a \<Rightarrow> 'a \<Rightarrow> int) \<Rightarrow> 'a \<Rightarrow> 'a list \<Rightarrow> 'a list" where
  "insertBy cmp x [] = [x]"
| "insertBy cmp x (y # ys) = (if cmp x y \<le> 0 then x # y # ys else y # insertBy cmp x ys)"

definition sortBy :: "('a \<Rightarrow> 'a \<Rightarrow> int) \<Rightarrow> 'a list \<Rightarrow> 'a list" where
  "sortBy cmp xs = foldr (insertBy cmp) xs []"

definition slice0 :: "int \<Rightarrow> 'a list \<Rightarrow> 'a list" where
  "slice0 k xs = (if k < 0 then take (nat (int (length xs) + k)) xs else take (nat k) xs)"

subsection \<open>Building the steps of a heuristic plan\<close>

text \<open>The \<^verbatim>\<open>map\<close> that turns the selected services into steps, from index \<open>i\<close> on.\<close>

fun mkSteps :: "nat \<Rightarrow> X402Service list \<Rightarrow> TaskStep list" where
  "mkSteps i [] = []"
| "mkSteps i (service # rest) =
     \<lparr>step_id = ''step-'' @ show_nat (i + 1),
      step_description = ''Use '' @ svc_name service @ '': '' @ svc_description service,
      step_serviceId = svc_id service,
      step_requestData =
        (if i > 0 then JObj [(''input'', JStr ''{{lastResult}}'')] else JUndefined),
      step_required = Some True,
      step_estimatedCost = Some (svc_amount service)\<rparr> # mkSteps (i + 1) rest"

text \<open>
  The common tail of both heuristic planners: the plan for the selected services. The
  clock read \<^verbatim>\<open>Date.now()\<close> in the plan id is the argument \<open>now\<close>.
\<close>

definition mkPlan :: "int \<Rightarrow> string \<Rightarrow> X402Service list \<Rightarrow> int \<Rightarrow> TaskPlan" where
  "mkPlan now query selectedServices runningCost =
     (let steps = mkSteps 0 selectedServices
      in \<lparr>plan_id = ''plan-'' @ show_int now,
          plan_query = query,
          plan_description =
            ''Execute '' @ show_nat (length steps) @ '' service(s) to complete the task'',
          plan_steps = steps,
          plan_estimatedTotalCost = runningCost,
          plan_outputTemplate = JUndefined\<rparr>)"

text \<open>
  The fallback shared by both heuristic planners when nothing was selected: the cheapest
  service, if there is one and the budget covers it.
\<close>

definition cheapestPlan :: "int \<Rightarrow> string \<Rightarrow> X402Service list \<Rightarrow> int \<Rightarrow> TaskPlan option" where
  "cheapestPlan now query services maxBudget =
     (case sortBy (\<lambda>a b. svc_amount a - svc_amount b) services of
        [] \<Rightarrow> None
      | cheapest # _ \<Rightarrow>
          if svc_amount cheapest \<le> maxBudget
          then Some (mkPlan now query [cheapest] (svc_amount cheapest))
          else None)"

subsection \<open>createKeywordBasedPlan\<close>

definition keywordScore :: "string list \<Rightarrow> X402Service \<Rightarrow> int" where
  "keywordScore words service =
     (let nameLower = toLowerCase (svc_name service);
          descLower = toLowerCase (svc_description service);
          tags = (case svc_tags service of None \<Rightarrow> [] | Some ts \<Rightarrow> map toLowerCase ts)
      in foldl (\<lambda>score word.
            score + (if str_includes nameLower word then 3 else 0)
                  + (if str_includes descLower word then 2 else 0)
                  + (if \<exists>t\<in>set tags. str_includes t word then 2 else 0)) 0 words)"

text \<open>
  The selection loop over the sorted services; the two \<^verbatim>\<open>break\<close> statements end the
  loop and return what has been selected.
\<close>

fun keywordSelect ::
  "int \<Rightarrow> int \<Rightarrow> (X402Service \<times> int) list \<Rightarrow> X402Service list \<Rightarrow> int
     \<Rightarrow> X402Service list \<times> int" where
  "keywordSelect maxSteps maxBudget [] selectedServices runningCost =
     (selectedServices, runningCost)"
| "keywordSelect maxSteps maxBudget ((service, score) # rest) selectedServices runningCost =
     (if int (length selectedServices) \<ge> maxSteps then (selectedServices, runningCost)
      else if score = 0 \<and> length selectedServices > 0 then (selectedServices, runningCost)
      else if runningCost + svc_amount service \<le> maxBudget
        then keywordSelect maxSteps maxBudget rest (selectedServices @ [service])
               (runningCost + svc_amount service)
        else keywordSelect maxSteps maxBudget rest selectedServices runningCost)"

definition createKeywordBasedPlan ::
  "int \<Rightarrow> string \<Rightarrow> X402Service list \<Rightarrow> int \<Rightarrow> int \<Rightarrow> TaskPlan option" where
  "createKeywordBasedPlan now query services maxSteps maxBudget =
     (let queryLower = toLowerCase query;
          words = queryWords queryLower;
          scoredServices = map (\<lambda>service. (service, keywordScore words service)) services;
          sorted = sortBy (\<lambda>a b. if snd b \<noteq> snd a then snd b - snd a
                                   else svc_amount (fst a) - svc_amount (fst b))
                     scoredServices;
          (selectedServices, runningCost) = keywordSelect maxSteps maxBudget sorted [] 0
      in if selectedServices = [] then cheapestPlan now query services maxBudget
         else Some (mkPlan now query selectedServices runningCost))"

subsection \<open>createHeuristicPlan\<close>

text \<open>The detection loop: a pattern is kept when it matches and its category is new.\<close>

fun detectTasks :: "string \<Rightarrow> TaskPattern list \<Rightarrow> TaskPattern list \<Rightarrow> TaskPattern list" where
  "detectTasks queryLower [] detectedTasks = detectedTasks"
| "detectTasks queryLower (task # rest) detectedTasks =
     detectTasks queryLower rest
       (if rx_test (tp_pattern task) queryLower \<and>
           \<not> (\<exists>t\<in>set detectedTasks. tp_category t = tp_category task)
        then detectedTasks @ [task] else detectedTasks)"

definition taskScore :: "TaskPattern \<Rightarrow> X402Service list \<Rightarrow> X402Service \<Rightarrow> int" where
  "taskScore task selectedServices service =
     (let nameLower = toLowerCase (svc_name service);
          descLower = toLowerCase (svc_description service);
          tags = (case svc_tags service of None \<Rightarrow> [] | Some ts \<Rightarrow> map toLowerCase ts);
          score0 = (if svc_category service = Some (tp_category task) then 10 else 0);
          score = foldl (\<lambda>score keyword.
                    score + (if str_includes nameLower keyword then 5 else 0)
                          + (if str_includes descLower keyword then 3 else 0)
                          + (if keyword \<in> set tags then 4 else 0)) score0 (tp_keywords task)
      in if service \<in> set selectedServices then 0 else score)"

text \<open>The inner loop over the services, keeping the first service of the highest score.\<close>

fun bestServiceLoop ::
  "TaskPattern \<Rightarrow> X402Service list \<Rightarrow> X402Service list \<Rightarrow> X402Service option \<Rightarrow> int
     \<Rightarrow> X402Service option \<times> int" where
  "bestServiceLoop task selectedServices [] bestService bestScore = (bestService, bestScore)"
| "bestServiceLoop task selectedServices (service # rest) bestService bestScore =
     (let score = taskScore task selectedServices service
      in if score > bestScore
         then bestServiceLoop task selectedServices rest (Some service) score
         else bestServiceLoop task selectedServices rest bestService bestScore)"

text \<open>The outer loop over the detected tasks.\<close>

fun matchTasks ::
  "X402Service list \<Rightarrow> int \<Rightarrow> TaskPattern list \<Rightarrow> X402Service list \<Rightarrow> int
     \<Rightarrow> X402Service list \<times> int" where
  "matchTasks services maxBudget [] selectedServices runningCost =
     (selectedServices, runningCost)"
| "matchTasks services maxBudget (task # rest) selectedServices runningCost =
     (case bestServiceLoop task selectedServices services None 0 of
        (Some bestService, bestScore) \<Rightarrow>
          if bestScore > 0 \<and> runningCost + svc_amount bestService \<le> maxBudget
          then matchTasks services maxBudget rest (selectedServices @ [bestService])
                 (runningCost + svc_amount bestService)
          else matchTasks services maxBudget rest selectedServices runningCost
      | (None, bestScore) \<Rightarrow>
          matchTasks services maxBudget rest selectedServices runningCost)"

definition createHeuristicPlan ::
  "int \<Rightarrow> string \<Rightarrow> X402Service list \<Rightarrow> int \<Rightarrow> int \<Rightarrow> TaskPlan option" where
  "createHeuristicPlan now query services maxSteps maxBudget =
     (let queryLower = toLowerCase query;
          detectedTasks = detectTasks queryLower taskPatterns []
      in if detectedTasks = []
         then createKeywordBasedPlan now query services maxSteps maxBudget
         else
           let tasksToExecute = slice0 maxSteps detectedTasks;
               (selectedServices, runningCost) =
                 matchTasks services maxBudget tasksToExecute [] 0
           in if selectedServices = [] then cheapestPlan now query services maxBudget
              else Some (mkPlan now query selectedServices runningCost))"

subsection \<open>createAIPlan and createPlan\<close>

text \<open>
  The language model is outside the program. Its answer, after \<^verbatim>\<open>JSON.parse\<close>, is one
  of: a failure (the request is rejected, the content is empty or is not a JSON object of
  the requested shape, so that an exception leaves \<^verbatim>\<open>createAIPlan\<close>); an object with
  a truthy \<^verbatim>\<open>error\<close> field; or an object with a description, a list of steps and an
  optional output template. A step of the answer has the fields the prompt asks for, the
  optional ones as options.
\<close>

record AIStep =
  ai_id :: "string option"
  ai_description :: string
  ai_serviceId :: string
  ai_requestData :: json
  ai_required :: "bool option"

datatype AIResponse =
    AIFailure
  | AIError string
  | AIPlan string "AIStep list" json

text \<open>
  The \<^verbatim>\<open>map\<close> over the steps of the answer, from index \<open>i\<close> on. The cost of a step is
  the price of the first service with its id, and zero when there is none.
\<close>

fun aiSteps :: "X402Service list \<Rightarrow> nat \<Rightarrow> AIStep list \<Rightarrow> TaskStep list" where
  "aiSteps services i [] = []"
| "aiSteps services i (step # rest) =
     (let cost = (case find (\<lambda>s. svc_id s = ai_serviceId step) services of
                    Some service \<Rightarrow> svc_amount service | None \<Rightarrow> 0)
      in \<lparr>step_id = (case ai_id step of
                        Some x \<Rightarrow> if x \<noteq> [] then x else ''step-'' @ show_nat (i + 1)
                      | None \<Rightarrow> ''step-'' @ show_nat (i + 1)),
          step_description = ai_description step,
          step_serviceId = ai_serviceId step,
          step_requestData = ai_requestData step,
          step_required = Some (ai_required step \<noteq> Some False),
          step_estimatedCost = Some cost\<rparr> # aiSteps services (i + 1) rest)"

text \<open>
  \<^verbatim>\<open>createAIPlan\<close>: \<open>None\<close> stands for an exception, \<open>Some None\<close> for the returned
  \<^verbatim>\<open>null\<close>, \<open>Some (Some plan)\<close> for a returned plan. The total is the sum of the step
  costs, accumulated in the callback.
\<close>

definition createAIPlan ::
  "AIResponse \<Rightarrow> int \<Rightarrow> string \<Rightarrow> X402Service list \<Rightarrow> int \<Rightarrow> int \<Rightarrow> TaskPlan option option" where
  "createAIPlan response now query services maxSteps maxBudget =
     (case response of
        AIFailure \<Rightarrow> None
      | AIError e \<Rightarrow> Some None
      | AIPlan description parsedSteps outputTemplate \<Rightarrow>
          let steps = aiSteps services 0 parsedSteps;
              totalCost = foldl (\<lambda>total step.
                            total + (case step_estimatedCost step of Some c \<Rightarrow> c | None \<Rightarrow> 0))
                            0 steps
          in Some (Some \<lparr>plan_id = ''plan-'' @ show_int now,
                          plan_query = query,
                          plan_description = description,
                          plan_steps = steps,
                          plan_estimatedTotalCost = totalCost,
                          plan_outputTemplate = outputTemplate\<rparr>))"

text \<open>
  The options of \<^verbatim>\<open>createPlan\<close> are optional and fall back through \<^verbatim>\<open>||\<close>,
  which also replaces a zero: \<^verbatim>\<open>options.maxSteps || 5\<close> and
  \<^verbatim>\<open>options.maxBudget || BigInt(1000000)\<close>. The step ceiling is a JavaScript number
  and is taken to be an integer.
\<close>

record PlanOptions =
  opt_maxBudget :: "int option"
  opt_maxSteps :: "int option"

definition effectiveSteps :: "PlanOptions \<Rightarrow> int" where
  "effectiveSteps options =
     (case opt_maxSteps options of Some n \<Rightarrow> if n \<noteq> 0 then n else 5 | None \<Rightarrow> 5)"

definition effectiveBudget :: "PlanOptions \<Rightarrow> int" where
  "effectiveBudget options =
     (case opt_maxBudget options of
        Some b \<Rightarrow> if b \<noteq> 0 then b else 1000000 | None \<Rightarrow> 1000000)"

text \<open>
  \<^verbatim>\<open>createPlan\<close>. \<open>ai\<close> is \<open>None\<close> when the planner has no language-model
  client, and the answer of the model otherwise. An exception of \<^verbatim>\<open>createAIPlan\<close> is
  caught and leads to the heuristic planner.
\<close>

definition createPlan ::
  "AIResponse option \<Rightarrow> int \<Rightarrow> string \<Rightarrow> X402Service list \<Rightarrow> PlanOptions \<Rightarrow> TaskPlan option" where
  "createPlan ai now query availableServices options =
     (let maxSteps = effectiveSteps options;
          maxBudget = effectiveBudget options
      in case ai of
           Some response \<Rightarrow>
             (case createAIPlan response now query availableServices maxSteps maxBudget of
                Some result \<Rightarrow> result
              | None \<Rightarrow> createHeuristicPlan now query availableServices maxSteps maxBudget)
         | None \<Rightarrow> createHeuristicPlan now query availableServices maxSteps maxBudget)"

text \<open>The sum of the estimated costs of the steps of a plan.\<close>

definition planCost :: "TaskPlan \<Rightarrow> int" where
  "planCost plan =
     sum_list (map (\<lambda>step. case step_estimatedCost step of Some c \<Rightarrow> c | None \<Rightarrow> 0)
                 (plan_steps plan))"

section \<open>Payment service (services/payment.ts, services/wallet.ts)\<close>

record PaymentResult =
  pay_success :: bool
  pay_txId :: "string option"
  pay_amount :: "int option"
  pay_asset :: "string option"
  pay_error :: "string option"
  pay_explorerUrl :: "string option"

text \<open>
  What the outside world answers to one call of \<^verbatim>\<open>executePayment\<close>: the balances the
  wallet reads, and the outcome of the paid HTTP request. A response carries its data and
  the transaction id decoded from its payment header, if any. A failed request carries the
  three texts the \<^verbatim>\<open>catch\<close> block looks at, in its order:
  \<^verbatim>\<open>error.response.data.error\<close>, \<^verbatim>\<open>error.response.data.message\<close> and
  \<^verbatim>\<open>error.message\<close>. \<open>pe_now\<close> is the clock when the payment is recorded.
\<close>

record Balances =
  bal_stx :: int
  bal_sbtc :: "int option"
  bal_usdcx :: "int option"

datatype HttpOutcome =
    HttpOk json "string option"
  | HttpError "string option" "string option" "string option"

record PayEnv =
  pe_balances :: Balances
  pe_http :: HttpOutcome
  pe_now :: int

definition hasSufficientBalance :: "Balances \<Rightarrow> int \<Rightarrow> string \<Rightarrow> bool" where
  "hasSufficientBalance balances amount asset =
     (let a = toUpperCase asset
      in if a = ''STX'' then bal_stx balances \<ge> amount + 10000
         else if a = ''SBTC''
           then (case bal_sbtc balances of Some b \<Rightarrow> b | None \<Rightarrow> 0) \<ge> amount
         else if a = ''USDCX''
           then (case bal_usdcx balances of Some b \<Rightarrow> b | None \<Rightarrow> 0) \<ge> amount
         else False)"

definition getExplorerUrl :: "string \<Rightarrow> string \<Rightarrow> string" where
  "getExplorerUrl txId network =
     ''https://explorer.hiro.so/txid/'' @ txId @
     (if network = ''mainnet'' then [] else ''?chain=testnet'')"

text \<open>The value of \<^verbatim>\<open>a || b\<close> on optional texts: the first that is present and not empty.\<close>

definition orElse :: "string option \<Rightarrow> string option \<Rightarrow> string option" where
  "orElse a b = (case a of Some x \<Rightarrow> if x \<noteq> [] then a else b | None \<Rightarrow> b)"

definition failedPayment :: "string \<Rightarrow> PaymentResult" where
  "failedPayment message =
     \<lparr>pay_success = False, pay_txId = None, pay_amount = None, pay_asset = None,
      pay_error = Some message, pay_explorerUrl = None\<rparr>"

definition executePayment ::
  "string \<Rightarrow> PayEnv \<Rightarrow> X402Service \<Rightarrow> json \<Rightarrow> PaymentResult \<times> json" where
  "executePayment network world service requestData =
     (if \<not> hasSufficientBalance (pe_balances world) (svc_amount service) (svc_asset service)
      then (failedPayment (''Insufficient '' @ svc_asset service @ '' balance''), JUndefined)
      else case pe_http world of
        HttpOk responseData tx \<Rightarrow>
          let txId = orElse tx None
          in (\<lparr>pay_success = True, pay_txId = txId,
               pay_amount = Some (svc_amount service),
               pay_asset = Some (svc_asset service),
               pay_error = None,
               pay_explorerUrl = map_option (\<lambda>t. getExplorerUrl t network) txId\<rparr>,
              responseData)
      | HttpError e1 e2 e3 \<Rightarrow>
          (failedPayment
             (case orElse e1 (orElse e2 (orElse e3 (Some ''Unknown payment error''))) of
                Some m \<Rightarrow> m | None \<Rightarrow> ''Unknown payment error''),
           JUndefined))"

section \<open>Pipeline orchestrator (agent/orchestrator.ts, class TaskOrchestrator)\<close>

record StepResult =
  sr_stepId :: string
  sr_success :: bool
  sr_data :: json
  sr_service :: "X402Service option"
  sr_payment :: "PaymentResult option"
  sr_cost :: "int option"
  sr_error :: "string option"

record ExecutionContext =
  ctx_pipelineId :: string
  ctx_query :: string
  ctx_variables :: "string \<rightharpoonup> json"
  ctx_results :: "StepResult list"
  ctx_totalSpent :: int

record PipelineResult =
  pr_pipelineId :: string
  pr_query :: string
  pr_success :: bool
  pr_plan :: "TaskPlan option"
  pr_stepResults :: "StepResult list"
  pr_finalOutput :: json
  pr_totalCost :: int
  pr_startedAt :: int
  pr_completedAt :: int
  pr_durationMs :: int
  pr_error :: "string option"

text \<open>
  What a run does that can be observed from outside, in order: the calls of the event
  handlers of \<^verbatim>\<open>OrchestratorEvents\<close> and the calls of the payment service. A
  handler is taken to return normally.
\<close>

datatype event =
    PlanCreated TaskPlan
  | StepStart TaskStep nat nat
  | PaymentCall X402Service json
  | StepComplete TaskStep StepResult
  | StepError TaskStep string
  | PipelineComplete PipelineResult

text \<open>
  \<^verbatim>\<open>executeStep\<close>. A thrown \<^verbatim>\<open>Error\<close> is \<open>Inl\<close> of its message. The result also
  carries the spend ledger after the step and the payment calls made. On success the
  payment service has set amount and asset.
\<close>

definition executeStep ::
  "(json \<Rightarrow> string) \<Rightarrow> string \<Rightarrow> PayEnv \<Rightarrow> TaskStep \<Rightarrow> ExecutionContext \<Rightarrow> X402Service list
     \<Rightarrow> SpendingTracker \<Rightarrow> (string + StepResult) \<times> SpendingTracker \<times> event list" where
  "executeStep stringify network world step context allServices spending =
     (case find (\<lambda>s. svc_id s = step_serviceId step) allServices of
        None \<Rightarrow> (Inl (''Service not found: '' @ step_serviceId step), spending, [])
      | Some service \<Rightarrow>
          let requestData =
                interpolateVariables stringify (ctx_variables context) (step_requestData step);
              (payment, responseData) = executePayment network world service requestData
          in if \<not> pay_success payment
             then (Inl (case orElse (pay_error payment) (Some ''Payment failed'') of
                          Some m \<Rightarrow> m | None \<Rightarrow> ''Payment failed''),
                   spending, [PaymentCall service requestData])
             else
               (Inr \<lparr>sr_stepId = step_id step, sr_success = True, sr_data = responseData,
                     sr_service = Some service, sr_payment = Some payment,
                     sr_cost = pay_amount payment, sr_error = None\<rparr>,
                recordPayment (pe_now world)
                  (case pay_amount payment of Some a \<Rightarrow> a | None \<Rightarrow> 0)
                  (case pay_asset payment of Some a \<Rightarrow> a | None \<Rightarrow> [])
                  (svc_id service) (svc_name service) (pay_txId payment) spending,
                [PaymentCall service requestData]))"

text \<open>
  The \<^verbatim>\<open>for\<close> loop over the steps of the plan, from index \<open>i\<close> on, with its inner
  \<^verbatim>\<open>try\<close>/\<^verbatim>\<open>catch\<close>. The first component of the result is \<open>None\<close> when the loop
  ends normally and \<open>Some message\<close> when it throws an \<^verbatim>\<open>Error\<close> with that message.
  \<open>world i\<close> is what the outside world answers to the payment call of step \<open>i\<close>.
\<close>

fun runSteps ::
  "(json \<Rightarrow> string) \<Rightarrow> string \<Rightarrow> (nat \<Rightarrow> PayEnv) \<Rightarrow> X402Service list \<Rightarrow> nat \<Rightarrow> nat
     \<Rightarrow> TaskStep list \<Rightarrow> ExecutionContext \<Rightarrow> SpendingTracker
     \<Rightarrow> string option \<times> ExecutionContext \<times> SpendingTracker \<times> event list" where
  "runSteps stringify network world allServices totalSteps i [] context spending =
     (None, context, spending, [])"
| "runSteps stringify network world allServices totalSteps i (step # rest) context spending =
     (case executeStep stringify network (world i) step context allServices spending of
        (Inr result, spending1, calls) \<Rightarrow>
          let context1 = context
                \<lparr>ctx_results := ctx_results context @ [result],
                 ctx_variables :=
                   (if sr_success result \<and> truthy (sr_data result)
                    then (ctx_variables context)
                           (''step'' @ show_nat (i + 1) \<mapsto> sr_data result,
                            ''lastResult'' \<mapsto> sr_data result)
                    else ctx_variables context),
                 ctx_totalSpent := ctx_totalSpent context +
                   (case sr_cost result of Some c \<Rightarrow> c | None \<Rightarrow> 0)\<rparr>;
              (thrown, context2, spending2, events) =
                runSteps stringify network world allServices totalSteps (i + 1) rest
                  context1 spending1
          in (thrown, context2, spending2,
              StepStart step i totalSteps # calls @ StepComplete step result # events)
      | (Inl message, spending1, calls) \<Rightarrow>
          let errorResult =
                \<lparr>sr_stepId = step_id step, sr_success = False, sr_data = JUndefined,
                 sr_service = None, sr_payment = None, sr_cost = None,
                 sr_error = Some message\<rparr>;
              context1 = context\<lparr>ctx_results := ctx_results context @ [errorResult]\<rparr>
          in if step_required step \<noteq> Some False
             then (Some (''Required step failed: '' @ message), context1, spending1,
                   StepStart step i totalSteps # calls @ [StepError step message])
             else
               let (thrown, context2, spending2, events) =
                     runSteps stringify network world allServices totalSteps (i + 1) rest
                       context1 spending1
               in (thrown, context2, spending2,
                   StepStart step i totalSteps # calls @ StepError step message # events))"

definition compileFinalOutput ::
  "(json \<Rightarrow> string) \<Rightarrow> ExecutionContext \<Rightarrow> TaskPlan \<Rightarrow> json" where
  "compileFinalOutput stringify context plan =
     (if truthy (plan_outputTemplate plan)
      then interpolateVariables stringify (ctx_variables context) (plan_outputTemplate plan)
      else
        let successfulResults =
              filter (\<lambda>r. sr_success r \<and> truthy (sr_data r)) (ctx_results context)
        in if length successfulResults > 0 then sr_data (last successfulResults)
           else JNull)"

text \<open>
  Modelled from the spec: \<^verbatim>\<open>TaskMemory.savePipeline\<close> (agent/memory.ts) is not among
  the sources. The specification of the History Log says of \<^verbatim>\<open>addEntry\<close>: prepend;
  evict oldest beyond capacity (default 50).
\<close>

definition savePipeline :: "PipelineResult \<Rightarrow> PipelineResult list \<Rightarrow> PipelineResult list" where
  "savePipeline result memory = take 50 (result # memory)"

text \<open>
  The inputs of one run that come from outside the orchestrator: the clock at the start
  and at the end, the generated pipeline id, the catalog that service discovery returns,
  the answer of the language model (if the planner has one), the clock inside the planner,
  local midnight as \<^verbatim>\<open>canSpend\<close> computes it, and the answers to the payment calls.
\<close>

record RunEnv =
  re_startTime :: int
  re_pipelineId :: string
  re_services :: "X402Service list"
  re_ai :: "AIResponse option"
  re_planTime :: int
  re_today :: int
  re_world :: "nat \<Rightarrow> PayEnv"
  re_endTime :: int

record PaygentConfig =
  cfg_network :: string
  cfg_maxSpendPerTask :: int

text \<open>
  The context that \<^verbatim>\<open>executePipeline\<close> creates before the loop. Its variables are a
  plain object without own properties.
\<close>

definition initialContext :: "RunEnv \<Rightarrow> string \<Rightarrow> ExecutionContext" where
  "initialContext env query =
     \<lparr>ctx_pipelineId = re_pipelineId env, ctx_query = query,
      ctx_variables = Map.empty, ctx_results = [], ctx_totalSpent = 0\<rparr>"

text \<open>The \<^verbatim>\<open>PipelineResult\<close> that the outer \<^verbatim>\<open>catch\<close> block returns.\<close>

definition failedPipeline :: "RunEnv \<Rightarrow> string \<Rightarrow> string \<Rightarrow> PipelineResult" where
  "failedPipeline env query message =
     \<lparr>pr_pipelineId = re_pipelineId env, pr_query = query, pr_success = False,
      pr_plan = None, pr_stepResults = [], pr_finalOutput = JUndefined, pr_totalCost = 0,
      pr_startedAt = re_startTime env, pr_completedAt = re_endTime env,
      pr_durationMs = re_endTime env - re_startTime env,
      pr_error = Some message\<rparr>"

text \<open>
  \<^verbatim>\<open>executePipeline\<close>. The state that outlives the run is passed in and returned: the
  spend ledger and the memory of saved results. The fourth component of the result lists
  the observable events of the run.
\<close>

definition executePipeline ::
  "(json \<Rightarrow> string) \<Rightarrow> PaygentConfig \<Rightarrow> RunEnv \<Rightarrow> string \<Rightarrow> PlanOptions
     \<Rightarrow> SpendingTracker \<Rightarrow> PipelineResult list
     \<Rightarrow> PipelineResult \<times> SpendingTracker \<times> PipelineResult list \<times> event list" where
  "executePipeline stringify config env query options spending memory =
     (let maxBudget = (case opt_maxBudget options of
                         Some b \<Rightarrow> if b \<noteq> 0 then b else cfg_maxSpendPerTask config
                       | None \<Rightarrow> cfg_maxSpendPerTask config);
          maxSteps = (case opt_maxSteps options of
                        Some n \<Rightarrow> if n \<noteq> 0 then n else 5 | None \<Rightarrow> 5);
          allServices = re_services env
      in if length allServices = 0
         then (failedPipeline env query ''No x402 services available'', spending, memory, [])
         else
           case createPlan (re_ai env) (re_planTime env) query allServices
                  \<lparr>opt_maxBudget = Some maxBudget, opt_maxSteps = Some maxSteps\<rparr> of
             None \<Rightarrow>
               (failedPipeline env query ''Could not create execution plan for this task'',
                spending, memory, [])
           | Some plan \<Rightarrow>
               if length (plan_steps plan) = 0
               then (failedPipeline env query
                       ''Could not create execution plan for this task'',
                     spending, memory, [])
               else
                 let canAfford = canSpend (re_today env) (plan_estimatedTotalCost plan) spending
                 in if \<not> allowed canAfford
                    then (failedPipeline env query
                            (''Budget exceeded: '' @
                               (case reason canAfford of Some r \<Rightarrow> r | None \<Rightarrow> ''undefined'')),
                          spending, memory, [PlanCreated plan])
                    else
                      let context0 = initialContext env query;
                          (thrown, context, spending1, events) =
                            runSteps stringify (cfg_network config) (re_world env) allServices
                              (length (plan_steps plan)) 0 (plan_steps plan) context0 spending
                      in case thrown of
                           Some message \<Rightarrow>
                             (failedPipeline env query message, spending1, memory,
                              PlanCreated plan # events)
                         | None \<Rightarrow>
                             let pipelineResult =
                                   \<lparr>pr_pipelineId = re_pipelineId env, pr_query = query,
                                    pr_success = True, pr_plan = Some plan,
                                    pr_stepResults = ctx_results context,
                                    pr_finalOutput = compileFinalOutput stringify context plan,
                                    pr_totalCost = ctx_totalSpent context,
                                    pr_startedAt = re_startTime env,
                                    pr_completedAt = re_endTime env,
                                    pr_durationMs = re_endTime env - re_startTime env,
                                    pr_error = None\<rparr>
                             in (pipelineResult, spending1, savePipeline pipelineResult memory,
                                 PlanCreated plan # events @ [PipelineComplete pipelineResult]))"

text \<open>
  The plan that \<^verbatim>\<open>executePipeline\<close> asks the planner for: the call of
  \<^verbatim>\<open>createPlan\<close> above, with the same two defaults.
\<close>

definition plannedPipeline ::
  "PaygentConfig \<Rightarrow> RunEnv \<Rightarrow> string \<Rightarrow> PlanOptions \<Rightarrow> TaskPlan option" where
  "plannedPipeline config env query options =
     createPlan (re_ai env) (re_planTime env) query (re_services env)
       \<lparr>opt_maxBudget =
          Some (case opt_maxBudget options of
                  Some b \<Rightarrow> if b \<noteq> 0 then b else cfg_maxSpendPerTask config
                | None \<Rightarrow> cfg_maxSpendPerTask config),
        opt_maxSteps =
          Some (case opt_maxSteps options of
                  Some n \<Rightarrow> if n \<noteq> 0 then n else 5 | None \<Rightarrow> 5)\<rparr>"

section \<open>A sample run\<close>

text \<open>
  Two services of the built-in fallback catalog (services/discovery.ts), a wallet that
  can pay, and a world in which the first payment call succeeds and every later one is
  rejected by the server with the error text \<^verbatim>\<open>insufficient balance\<close>. The planner has
  no language model, so the plan comes from the heuristic tier.
\<close>

definition bitcoinNews :: X402Service where
  "bitcoinNews =
     \<lparr>svc_id = ''demo-bitcoin-news'', svc_name = ''Bitcoin News API'',
      svc_description = ''Get latest Bitcoin news headlines with sentiment analysis'',
      svc_url = ''http://localhost:3403/api/news/bitcoin'',
      svc_amount = 1000, svc_asset = ''STX'', svc_category = Some ''news'',
      svc_tags = Some [''bitcoin'', ''news'', ''crypto'', ''btc'', ''headlines'']\<rparr>"

definition aiSummarizer :: X402Service where
  "aiSummarizer =
     \<lparr>svc_id = ''demo-summarize'', svc_name = ''AI Summarizer'',
      svc_description = ''Summarize any text content with key points extraction'',
      svc_url = ''http://localhost:3403/api/summarize'',
      svc_amount = 2000, svc_asset = ''STX'', svc_category = Some ''ai'',
      svc_tags = Some [''ai'', ''summarize'', ''nlp'', ''text'', ''summary'']\<rparr>"

definition sampleWorld :: "nat \<Rightarrow> PayEnv" where
  "sampleWorld i =
     (if i = 0
      then \<lparr>pe_balances = \<lparr>bal_stx = 1000000, bal_sbtc = None, bal_usdcx = None\<rparr>,
            pe_http = HttpOk (JObj [(''price'', JNum 100)]) (Some ''0xabc''),
            pe_now = 5000\<rparr>
      else \<lparr>pe_balances = \<lparr>bal_stx = 1000000, bal_sbtc = None, bal_usdcx = None\<rparr>,
            pe_http = HttpError (Some ''insufficient balance'') None
                        (Some ''Request failed with status code 402''),
            pe_now = 6000\<rparr>)"

definition sampleEnv :: RunEnv where
  "sampleEnv =
     \<lparr>re_startTime = 4000, re_pipelineId = ''pipeline-1'',
      re_services = [bitcoinNews, aiSummarizer], re_ai = None, re_planTime = 4500,
      re_today = 0, re_world = sampleWorld, re_endTime = 7000\<rparr>"

definition sampleConfig :: PaygentConfig where
  "sampleConfig = \<lparr>cfg_network = ''testnet'', cfg_maxSpendPerTask = 100000\<rparr>"

definition noOptions :: PlanOptions where
  "noOptions = \<lparr>opt_maxBudget = None, opt_maxSteps = None\<rparr>"

text \<open>The plan of the sample run and its two steps.\<close>

definition sampleStep1 :: TaskStep where
  "sampleStep1 =
     \<lparr>step_id = ''step-1'',
      step_description =
        ''Use Bitcoin News API: Get latest Bitcoin news headlines with sentiment analysis'',
      step_serviceId = ''demo-bitcoin-news'', step_requestData = JUndefined,
      step_required = Some True, step_estimatedCost = Some 1000\<rparr>"

definition sampleStep2 :: TaskStep where
  "sampleStep2 =
     \<lparr>step_id = ''step-2'',
      step_description =
        ''Use AI Summarizer: Summarize any text content with key points extraction'',
      step_serviceId = ''demo-summarize'',
      step_requestData = JObj [(''input'', JStr ''{{lastResult}}'')],
      step_required = Some True, step_estimatedCost = Some 2000\<rparr>"

definition samplePlan :: TaskPlan where
  "samplePlan =
     \<lparr>plan_id = ''plan-4500'', plan_query = ''Summarize bitcoin news'',
      plan_description = ''Execute 2 service(s) to complete the task'',
      plan_steps = [sampleStep1, sampleStep2],
      plan_estimatedTotalCost = 3000, plan_outputTemplate = JUndefined\<rparr>"

text \<open>The result of the first step of the sample run, and the events of the run.\<close>

definition sampleResult1 :: StepResult where
  "sampleResult1 =
     \<lparr>sr_stepId = ''step-1'', sr_success = True, sr_data = JObj [(''price'', JNum 100)],
      sr_service = Some bitcoinNews,
      sr_payment = Some \<lparr>pay_success = True, pay_txId = Some ''0xabc'',
                          pay_amount = Some 1000, pay_asset = Some ''STX'', pay_error = None,
                          pay_explorerUrl =
                            Some ''https://explorer.hiro.so/txid/0xabc?chain=testnet''\<rparr>,
      sr_cost = Some 1000, sr_error = None\<rparr>"

definition sampleEvents :: "event list" where
  "sampleEvents =
     [PlanCreated samplePlan,
      StepStart sampleStep1 0 2,
      PaymentCall bitcoinNews JUndefined,
      StepComplete sampleStep1 sampleResult1,
      StepStart sampleStep2 1 2,
      PaymentCall aiSummarizer
        (JObj [(''input'', JStr (jsonText (JObj [(''price'', JNum 100)])))]),
      StepError sampleStep2 ''insufficient balance'']"

text \<open>
  A second world, in which the first payment call is rejected by the server with the
  error text \<^verbatim>\<open>insufficient balance\<close> and every later one would succeed, and the
  events of the sample run in that world.
\<close>

definition rejectingWorld :: "nat \<Rightarrow> PayEnv" where
  "rejectingWorld i =
     (if i = 0
      then \<lparr>pe_balances = \<lparr>bal_stx = 1000000, bal_sbtc = None, bal_usdcx = None\<rparr>,
            pe_http = HttpError (Some ''insufficient balance'') None
                        (Some ''Request failed with status code 402''),
            pe_now = 5000\<rparr>
      else \<lparr>pe_balances = \<lparr>bal_stx = 1000000, bal_sbtc = None, bal_usdcx = None\<rparr>,
            pe_http = HttpOk (JObj [(''summary'', JStr ''calm'')]) (Some ''0xdef''),
            pe_now = 6000\<rparr>)"

definition rejectingEnv :: RunEnv where
  "rejectingEnv =
     \<lparr>re_startTime = 4000, re_pipelineId = ''pipeline-2'',
      re_services = [bitcoinNews, aiSummarizer], re_ai = None, re_planTime = 4500,
      re_today = 0, re_world = rejectingWorld, re_endTime = 7000\<rparr>"

definition rejectedEvents :: "event list" where
  "rejectedEvents =
     [PlanCreated samplePlan,
      StepStart sampleStep1 0 2,
      PaymentCall bitcoinNews JUndefined,
      StepError sampleStep1 ''insufficient balance'']"

text \<open>
  An answer of the language model that names the summarizer twice, for a request with a
  budget of 1000 and at most one step.
\<close>

definition twoStepAnswer :: AIResponse where
  "twoStepAnswer =
     AIPlan ''Summarize twice''
       [\<lparr>ai_id = Some ''first'', ai_description = ''Summarize the text'',
         ai_serviceId = ''demo-summarize'', ai_requestData = JUndefined,
         ai_required = Some True\<rparr>,
        \<lparr>ai_id = Some ''second'', ai_description = ''Summarize the summary'',
         ai_serviceId = ''demo-summarize'',
         ai_requestData = JObj [(''input'', JStr ''{{lastResult}}'')],
         ai_required = Some True\<rparr>]
       JUndefined"

definition tightOptions :: PlanOptions where
  "tightOptions = \<lparr>opt_maxBudget = Some 1000, opt_maxSteps = Some 1\<rparr>"

section \<open>Properties of the spend ledger\<close>

lemma foldl_amount_acc:
  "foldl (\<lambda>sum r. sum + rec_amount r) a rs = a + sum_list (map rec_amount rs)"
  by (induction rs arbitrary: a) simp_all

lemma getTodaySpent_sum:
  "getTodaySpent td t =
     sum_list (map rec_amount
       (filter (\<lambda>r. td \<le> rec_timestamp r \<and> rec_asset r = ''STX'') (records t)))"
  by (simp add: getTodaySpent_def foldl_amount_acc)

lemma recordAll_limits:
  "maxPerTask (recordAll cs t) = maxPerTask t \<and> maxPerDay (recordAll cs t) = maxPerDay t"
  by (induction cs t rule: recordAll.induct) (simp_all add: recordPayment_def)

lemma recordAll_records: "records (recordAll cs t) = records t @ map mkRecord cs"
  by (induction cs t rule: recordAll.induct) (simp_all add: recordPayment_def mkRecord_def)

lemma canSpend_cong:
  "maxPerTask t' = maxPerTask t \<Longrightarrow> maxPerDay t' = maxPerDay t \<Longrightarrow>
   getTodaySpent td t' = getTodaySpent td t \<Longrightarrow> canSpend td a t' = canSpend td a t"
  by (simp add: canSpend_def Let_def)

text \<open>
  C6 (daily ceiling enforcement). After any sequence of \<^verbatim>\<open>recordPayment\<close> calls on any
  tracker, if today's spend plus the amount exceeds \<^verbatim>\<open>maxPerDay\<close>, then
  \<^verbatim>\<open>canSpend(amount)\<close> answers \<^verbatim>\<open>allowed = false\<close>. Both reads of the clock give the
  same day \<open>td\<close>.
\<close>

theorem canSpend_daily_ceiling:
  assumes "getTodaySpent td (recordAll cs t0) + amount > maxPerDay (recordAll cs t0)"
  shows "\<not> allowed (canSpend td amount (recordAll cs t0))"
  using assms by (simp add: canSpend_def Let_def)

theorem canSpend_daily_ceiling_witness:
  "getTodaySpent 0 (recordAll [(1000, 600, ''STX'', ''svc-1'', ''News'', None)]
       (newSpendingTracker 1000 1000)) + 500
     > maxPerDay (recordAll [(1000, 600, ''STX'', ''svc-1'', ''News'', None)]
         (newSpendingTracker 1000 1000))
   \<and> \<not> 500 > maxPerTask (recordAll [(1000, 600, ''STX'', ''svc-1'', ''News'', None)]
         (newSpendingTracker 1000 1000))
   \<and> \<not> allowed (canSpend 0 500 (recordAll [(1000, 600, ''STX'', ''svc-1'', ''News'', None)]
         (newSpendingTracker 1000 1000)))"
  using canSpend_daily_ceiling
    [where cs = "[(1000, 600, ''STX'', ''svc-1'', ''News'', None)]"
       and ?t0.0 = "newSpendingTracker 1000 1000" and amount = 500 and td = 0]
  by (simp add: getTodaySpent_def recordPayment_def newSpendingTracker_def)

text \<open>
  C8 (other assets are recorded but not counted). A payment recorded with an asset other
  than \<^verbatim>\<open>'STX'\<close>, after any sequence of earlier calls, is appended to the records, leaves
  \<^verbatim>\<open>getTodaySpent\<close> as it was and leaves every answer of \<^verbatim>\<open>canSpend\<close> as it was, both
  right after the call and after any sequence \<open>cs'\<close> of later calls.
\<close>

theorem non_STX_payment_not_counted:
  assumes "asset \<noteq> ''STX''"
  shows "records (recordPayment now amount asset sid sname tx (recordAll cs t0)) =
           records (recordAll cs t0) @
             [\<lparr>rec_timestamp = now, rec_amount = amount, rec_asset = asset,
               rec_serviceId = sid, rec_serviceName = sname, rec_txId = tx\<rparr>]
       \<and> getTodaySpent td (recordPayment now amount asset sid sname tx (recordAll cs t0)) =
           getTodaySpent td (recordAll cs t0)
       \<and> canSpend td a (recordPayment now amount asset sid sname tx (recordAll cs t0)) =
           canSpend td a (recordAll cs t0)
       \<and> getTodaySpent td
           (recordAll cs' (recordPayment now amount asset sid sname tx (recordAll cs t0))) =
           getTodaySpent td (recordAll cs' (recordAll cs t0))
       \<and> canSpend td a
           (recordAll cs' (recordPayment now amount asset sid sname tx (recordAll cs t0))) =
           canSpend td a (recordAll cs' (recordAll cs t0))"
proof -
  let ?t = "recordAll cs t0"
  let ?t' = "recordPayment now amount asset sid sname tx ?t"
  have r: "records ?t' = records ?t @
             [\<lparr>rec_timestamp = now, rec_amount = amount, rec_asset = asset,
               rec_serviceId = sid, rec_serviceName = sname, rec_txId = tx\<rparr>]"
    by (simp add: recordPayment_def)
  have g: "getTodaySpent td ?t' = getTodaySpent td ?t"
    using assms by (simp add: getTodaySpent_sum r)
  have l: "maxPerTask ?t' = maxPerTask ?t" "maxPerDay ?t' = maxPerDay ?t"
    by (simp_all add: recordPayment_def)
  have g2: "getTodaySpent td (recordAll cs' ?t') = getTodaySpent td (recordAll cs' ?t)"
    using assms by (simp add: getTodaySpent_sum recordAll_records r)
  have l2: "maxPerTask (recordAll cs' ?t') = maxPerTask (recordAll cs' ?t)"
           "maxPerDay (recordAll cs' ?t') = maxPerDay (recordAll cs' ?t)"
    using l by (simp_all add: recordAll_limits)
  show ?thesis
    using r g canSpend_cong [OF l g] canSpend_cong [OF l2 g2] g2 by simp
qed

theorem non_STX_payment_not_counted_witness:
  "''sBTC'' \<noteq> ''STX''
   \<and> getTodaySpent 0 (recordPayment 2000 900 ''sBTC'' ''svc-2'' ''Summarizer'' None
        (recordAll [(1000, 600, ''STX'', ''svc-1'', ''News'', None)]
           (newSpendingTracker 1000 1000))) = 600
   \<and> allowed (canSpend 0 400 (recordPayment 2000 900 ''sBTC'' ''svc-2'' ''Summarizer'' None
        (recordAll [(1000, 600, ''STX'', ''svc-1'', ''News'', None)]
           (newSpendingTracker 1000 1000))))
   \<and> length (records (recordPayment 2000 900 ''sBTC'' ''svc-2'' ''Summarizer'' None
        (recordAll [(1000, 600, ''STX'', ''svc-1'', ''News'', None)]
           (newSpendingTracker 1000 1000)))) = 2"
  using non_STX_payment_not_counted
    [where asset = "''sBTC''" and now = 2000 and amount = 900 and sid = "''svc-2''"
       and sname = "''Summarizer''" and tx = None
       and cs = "[(1000, 600, ''STX'', ''svc-1'', ''News'', None)]"
       and ?t0.0 = "newSpendingTracker 1000 1000" and td = 0 and a = 400 and cs' = "[]"]
  by (simp add: getTodaySpent_def recordPayment_def newSpendingTracker_def canSpend_def)

lemma addToService_other:
  "name \<noteq> n \<Longrightarrow> addToService name amount m n = m n"
  by (simp add: addToService_def Let_def)

lemma addToService_plain:
  assumes "inheritedText n = None" and "\<forall>t. m n \<noteq> Some (Text t)"
  shows "addToService n amount m n =
           Some (Amount ((case m n of Some (Amount a) \<Rightarrow> a | _ \<Rightarrow> 0) + amount))"
proof -
  from assms(1) have np: "n \<noteq> ''__proto__''"
    by (auto simp add: inheritedText_def)
  show ?thesis
  proof (cases "m n")
    case None
    with assms(1) np show ?thesis by (simp add: addToService_def Let_def)
  next
    case (Some v)
    with assms(2) obtain a where "v = Amount a" by (cases v) auto
    with Some np show ?thesis by (simp add: addToService_def Let_def)
  qed
qed

text \<open>
  For a service name that names no inherited member, the breakdown entry is the sum of
  the amounts of the records in the primary asset that carry the name.
\<close>

lemma byServiceLoop_lookup:
  assumes "inheritedText n = None" and "\<forall>t. m n \<noteq> Some (Text t)"
  shows "byServiceLoop rs m n =
     (if \<exists>r\<in>set rs. rec_asset r = ''STX'' \<and> rec_serviceName r = n
      then Some (Amount ((case m n of Some (Amount a) \<Rightarrow> a | _ \<Rightarrow> 0) +
                 sum_list (map rec_amount
                   (filter (\<lambda>r. rec_asset r = ''STX'' \<and> rec_serviceName r = n) rs))))
      else m n)"
  using assms(2)
proof (induction rs arbitrary: m)
  case Nil
  then show ?case by simp
next
  case (Cons r rs)
  show ?case
  proof (cases "rec_asset r = ''STX''")
    case False
    with Cons.IH [of m, OF Cons.prems] show ?thesis by auto
  next
    case stx: True
    show ?thesis
    proof (cases "rec_serviceName r = n")
      case False
      let ?m = "addToService (rec_serviceName r) (rec_amount r) m"
      have same: "?m n = m n" using False by (simp add: addToService_other)
      then have "\<forall>t. ?m n \<noteq> Some (Text t)" using Cons.prems by simp
      from Cons.IH [of ?m, OF this] stx False same show ?thesis by auto
    next
      case True
      let ?m = "addToService n (rec_amount r) m"
      have upd: "?m n = Some (Amount ((case m n of Some (Amount a) \<Rightarrow> a | _ \<Rightarrow> 0) +
                                 rec_amount r))"
        using assms(1) Cons.prems by (rule addToService_plain)
      then have "\<forall>t. ?m n \<noteq> Some (Text t)" by simp
      from Cons.IH [of ?m, OF this] stx True upd show ?thesis by (auto simp add: add.assoc)
    qed
  qed
qed

lemma byServiceLoop_skip:
  "rec_asset r \<noteq> ''STX'' \<Longrightarrow> byServiceLoop (rs @ [r]) m = byServiceLoop rs m"
  by (induction rs arbitrary: m) simp_all

text \<open>
  What \<^verbatim>\<open>getSummary\<close> counts, after any sequence of \<^verbatim>\<open>recordPayment\<close> calls: the two
  transaction counts count records of every asset; the all-time total and today's total
  sum the \<^verbatim>\<open>'STX'\<close> records only; so does the breakdown entry of a service name that
  names no member inherited from \<^verbatim>\<open>Object.prototype\<close>. Recording a payment in another
  asset adds one to the all-time count, and one to today's count when the record is
  stamped within the day \<open>td\<close> of the summary, and changes no total, no breakdown entry
  and not the remaining daily budget.
\<close>

lemma getSummary_counts_and_totals:
  "(let t = recordAll cs t0; s = getSummary td t in
      allTime_transactions (allTime s) = length (records t)
    \<and> today_transactions (today s) =
        length (filter (\<lambda>r. td \<le> rec_timestamp r) (records t))
    \<and> allTime_total (allTime s) =
        sum_list (map rec_amount (filter (\<lambda>r. rec_asset r = ''STX'') (records t)))
    \<and> today_total (today s) =
        sum_list (map rec_amount
          (filter (\<lambda>r. td \<le> rec_timestamp r \<and> rec_asset r = ''STX'') (records t)))
    \<and> (inheritedText n = None \<longrightarrow>
        today_byService (today s) n =
        (if \<exists>r\<in>set (records t). td \<le> rec_timestamp r \<and> rec_asset r = ''STX'' \<and>
                                  rec_serviceName r = n
         then Some (Amount (sum_list (map rec_amount
                (filter (\<lambda>r. td \<le> rec_timestamp r \<and> rec_asset r = ''STX'' \<and>
                              rec_serviceName r = n) (records t)))))
         else None))
    \<and> (asset \<noteq> ''STX'' \<longrightarrow>
         (let s' = getSummary td (recordPayment now amount asset sid sname tx t)
          in allTime_transactions (allTime s') = allTime_transactions (allTime s) + 1
           \<and> (td \<le> now \<longrightarrow>
                today_transactions (today s') = today_transactions (today s) + 1)
           \<and> allTime_total (allTime s') = allTime_total (allTime s)
           \<and> today_total (today s') = today_total (today s)
           \<and> today_byService (today s') = today_byService (today s)
           \<and> remainingToday (limits s') = remainingToday (limits s))))"
proof -
  define t where "t = recordAll cs t0"
  define s where "s = getSummary td t"
  have a: "allTime_transactions (allTime s) = length (records t)"
    by (simp add: s_def getSummary_def Let_def)
  have b: "today_transactions (today s) =
             length (filter (\<lambda>r. td \<le> rec_timestamp r) (records t))"
    by (simp add: s_def getSummary_def Let_def)
  have c: "allTime_total (allTime s) =
             sum_list (map rec_amount (filter (\<lambda>r. rec_asset r = ''STX'') (records t)))"
    by (simp add: s_def getSummary_def Let_def foldl_amount_acc)
  have d: "today_total (today s) =
             sum_list (map rec_amount
               (filter (\<lambda>r. td \<le> rec_timestamp r \<and> rec_asset r = ''STX'') (records t)))"
    by (simp add: s_def getSummary_def Let_def getTodaySpent_sum)
  have e: "today_byService (today s) n =
           (if \<exists>r\<in>set (records t). td \<le> rec_timestamp r \<and> rec_asset r = ''STX'' \<and>
                                     rec_serviceName r = n
            then Some (Amount (sum_list (map rec_amount
                   (filter (\<lambda>r. td \<le> rec_timestamp r \<and> rec_asset r = ''STX'' \<and>
                                 rec_serviceName r = n) (records t)))))
            else None)"
    if plain: "inheritedText n = None"
  proof -
    have "byServiceLoop (filter (\<lambda>r. td \<le> rec_timestamp r) (records t)) Map.empty n =
          (if \<exists>r\<in>set (filter (\<lambda>r. td \<le> rec_timestamp r) (records t)).
                 rec_asset r = ''STX'' \<and> rec_serviceName r = n
           then Some (Amount ((case Map.empty n of Some (Amount a) \<Rightarrow> a | _ \<Rightarrow> 0) +
                  sum_list (map rec_amount
                    (filter (\<lambda>r. rec_asset r = ''STX'' \<and> rec_serviceName r = n)
                       (filter (\<lambda>r. td \<le> rec_timestamp r) (records t))))))
           else Map.empty n)"
      by (rule byServiceLoop_lookup [OF plain]) simp
    then show ?thesis
      by (auto simp add: s_def getSummary_def Let_def conj_commute conj_left_commute
            cong: conj_cong)
  qed
  have f: "asset \<noteq> ''STX'' \<longrightarrow>
            (let s' = getSummary td (recordPayment now amount asset sid sname tx t)
             in allTime_transactions (allTime s') = allTime_transactions (allTime s) + 1
              \<and> (td \<le> now \<longrightarrow>
                   today_transactions (today s') = today_transactions (today s) + 1)
              \<and> allTime_total (allTime s') = allTime_total (allTime s)
              \<and> today_total (today s') = today_total (today s)
              \<and> today_byService (today s') = today_byService (today s)
              \<and> remainingToday (limits s') = remainingToday (limits s))"
    by (simp add: s_def getSummary_def Let_def recordPayment_def getTodaySpent_def
          byServiceLoop_skip)
  from a b c d e f have
    "allTime_transactions (allTime s) = length (records t)
    \<and> today_transactions (today s) =
        length (filter (\<lambda>r. td \<le> rec_timestamp r) (records t))
    \<and> allTime_total (allTime s) =
        sum_list (map rec_amount (filter (\<lambda>r. rec_asset r = ''STX'') (records t)))
    \<and> today_total (today s) =
        sum_list (map rec_amount
          (filter (\<lambda>r. td \<le> rec_timestamp r \<and> rec_asset r = ''STX'') (records t)))
    \<and> (inheritedText n = None \<longrightarrow>
        today_byService (today s) n =
        (if \<exists>r\<in>set (records t). td \<le> rec_timestamp r \<and> rec_asset r = ''STX'' \<and>
                                  rec_serviceName r = n
         then Some (Amount (sum_list (map rec_amount
                (filter (\<lambda>r. td \<le> rec_timestamp r \<and> rec_asset r = ''STX'' \<and>
                              rec_serviceName r = n) (records t)))))
         else None))
    \<and> (asset \<noteq> ''STX'' \<longrightarrow>
         (let s' = getSummary td (recordPayment now amount asset sid sname tx t)
          in allTime_transactions (allTime s') = allTime_transactions (allTime s) + 1
           \<and> (td \<le> now \<longrightarrow>
                today_transactions (today s') = today_transactions (today s) + 1)
           \<and> allTime_total (allTime s') = allTime_total (allTime s)
           \<and> today_total (today s') = today_total (today s)
           \<and> today_byService (today s') = today_byService (today s)
           \<and> remainingToday (limits s') = remainingToday (limits s)))"
    by blast
  then show ?thesis unfolding s_def t_def Let_def .
qed

text \<open>
  C10 (what \<^verbatim>\<open>getSummary\<close> sums). The claim holds of the counts and of the two totals,
  and of the breakdown for ordinary service names, as the lemma above shows. It fails for
  the breakdown of a service whose name is a member that a plain object inherits: after
  one payment of 600 in \<^verbatim>\<open>'STX'\<close> to a service named \<^verbatim>\<open>constructor\<close>, today's total
  is 600, and the breakdown entry of that service is not 600 but the text of the
  inherited function with the digits appended. Two payments to a service named
  \<^verbatim>\<open>__proto__\<close> leave no breakdown entry at all.
\<close>

theorem breakdown_of_inherited_name:
  "today_total (today (getSummary 0
      (recordPayment 1000 600 ''STX'' ''svc-9'' ''constructor'' None
         (newSpendingTracker 1000 1000)))) = 600
   \<and> today_byService (today (getSummary 0
        (recordPayment 1000 600 ''STX'' ''svc-9'' ''constructor'' None
           (newSpendingTracker 1000 1000)))) ''constructor'' =
      Some (Text ''function Object() { [native code] }600'')
   \<and> today_byService (today (getSummary 0
        (recordPayment 1000 600 ''STX'' ''svc-9'' ''constructor'' None
           (newSpendingTracker 1000 1000)))) ''constructor'' \<noteq> Some (Amount 600)
   \<and> today_total (today (getSummary 0
        (recordPayment 1500 700 ''STX'' ''svc-8'' ''__proto__'' None
           (recordPayment 1000 600 ''STX'' ''svc-8'' ''__proto__'' None
              (newSpendingTracker 10000 10000))))) = 1300
   \<and> today_byService (today (getSummary 0
        (recordPayment 1500 700 ''STX'' ''svc-8'' ''__proto__'' None
           (recordPayment 1000 600 ''STX'' ''svc-8'' ''__proto__'' None
              (newSpendingTracker 10000 10000))))) ''__proto__'' = None"
  by code_simp


section \<open>Properties of the interpolation\<close>

lemma not_word_brace [simp]: "\<not> isWordChar CHR ''}''" "\<not> isWordChar CHR ''{''"
  by (simp_all add: isWordChar_def)

lemma matchPlaceholder_decomp:
  assumes "matchPlaceholder s = Some (k, rest)"
  shows "s = ''{{'' @ k @ ''}}'' @ rest \<and> k \<noteq> [] \<and> (\<forall>c\<in>set k. isWordChar c)"
proof -
  let ?t = "drop 2 s"
  from assms have t2: "take 2 s = ''{{''"
    and k: "k = takeWhile isWordChar ?t" and kne: "k \<noteq> []"
    and r2: "take 2 (dropWhile isWordChar ?t) = ''}}''"
    and rest: "rest = drop 2 (dropWhile isWordChar ?t)"
    by (auto simp add: matchPlaceholder_def Let_def split: if_splits)
  have "s = take 2 s @ ?t" by simp
  also have "?t = takeWhile isWordChar ?t @ dropWhile isWordChar ?t" by simp
  also have "dropWhile isWordChar ?t =
               take 2 (dropWhile isWordChar ?t) @ drop 2 (dropWhile isWordChar ?t)"
    by simp
  finally have "s = ''{{'' @ k @ ''}}'' @ rest"
    using t2 k r2 rest by (simp del: append_take_drop_id takeWhile_dropWhile_id)
  moreover have "\<forall>c\<in>set k. isWordChar c"
    using k by (auto dest: set_takeWhileD)
  ultimately show ?thesis using kne by blast
qed

lemma matchPlaceholder_at:
  assumes "key \<noteq> []" and "\<forall>c\<in>set key. isWordChar c"
  shows "matchPlaceholder (''{{'' @ key @ ''}}'' @ post) = Some (key, post)"
proof -
  have "takeWhile isWordChar (key @ ''}}'' @ post) = key"
    using assms(2) by simp
  moreover have "dropWhile isWordChar (key @ ''}}'' @ post) = ''}}'' @ post"
    using assms(2) by simp
  ultimately show ?thesis using assms(1) by (simp add: matchPlaceholder_def)
qed

lemma matchPlaceholder_extend:
  assumes "matchPlaceholder s = Some (k, rest)"
  shows "matchPlaceholder (s @ x) = Some (k, rest @ x)"
proof -
  from matchPlaceholder_decomp [OF assms]
  have s: "s = ''{{'' @ k @ ''}}'' @ rest" and k: "k \<noteq> []" "\<forall>c\<in>set k. isWordChar c"
    by blast+
  have "s @ x = ''{{'' @ k @ ''}}'' @ (rest @ x)" by (subst s) simp
  then show ?thesis using matchPlaceholder_at [OF k] by simp
qed

lemma matchPlaceholder_None_before:
  assumes "matchPlaceholder s = None" and "s \<noteq> []"
  shows "matchPlaceholder (s @ ''{{'' @ y) = None"
proof (cases s)
  case Nil
  with assms(2) show ?thesis by simp
next
  case (Cons c1 s')
  show ?thesis
  proof (cases s')
    case Nil
    with Cons show ?thesis by (simp add: matchPlaceholder_def)
  next
    case (Cons c2 t)
    note s = \<open>s = c1 # s'\<close> \<open>s' = c2 # t\<close>
    show ?thesis
    proof (cases "[c1, c2] = ''{{''")
      case False
      then show ?thesis using s by (auto simp add: matchPlaceholder_def)
    next
      case True
      let ?z = "''{{'' @ y"
      from assms(1) True s
      have n: "takeWhile isWordChar t = [] \<or> take 2 (dropWhile isWordChar t) \<noteq> ''}}''"
        by (simp add: matchPlaceholder_def Let_def split: if_splits)
      have m: "matchPlaceholder (s @ ?z) =
                 (if takeWhile isWordChar (t @ ?z) \<noteq> [] \<and>
                     take 2 (dropWhile isWordChar (t @ ?z)) = ''}}''
                  then Some (takeWhile isWordChar (t @ ?z),
                             drop 2 (dropWhile isWordChar (t @ ?z)))
                  else None)"
        using True s by (simp add: matchPlaceholder_def Let_def)
      show ?thesis
      proof (cases "\<forall>x\<in>set t. isWordChar x")
        case True
        then have "dropWhile isWordChar (t @ ?z) = ?z"
          by (simp add: dropWhile_append2)
        then have "take 2 (dropWhile isWordChar (t @ ?z)) \<noteq> ''}}''"
          by simp
        then show ?thesis unfolding m by (simp only: simp_thms if_False)
      next
        case False
        then obtain x where x: "x \<in> set t" "\<not> isWordChar x" by blast
        then have tw: "takeWhile isWordChar (t @ ?z) = takeWhile isWordChar t"
          and dw: "dropWhile isWordChar (t @ ?z) = dropWhile isWordChar t @ ?z"
          by (simp_all add: takeWhile_append1 dropWhile_append1)
        have ne: "dropWhile isWordChar t \<noteq> []"
          using x by (auto simp add: dropWhile_eq_Nil_conv)
        have "take 2 (dropWhile isWordChar t @ ?z) = ''}}'' \<Longrightarrow>
              take 2 (dropWhile isWordChar t) = ''}}''"
        proof (cases "dropWhile isWordChar t")
          case Nil
          with ne show ?thesis by simp
        next
          case (Cons a r)
          assume h: "take 2 (dropWhile isWordChar t @ ?z) = ''}}''"
          show ?thesis
          proof (cases r)
            case Nil
            with Cons h show ?thesis by simp
          next
            case (Cons b r')
            with \<open>dropWhile isWordChar t = a # r\<close> h show ?thesis by simp
          qed
        qed
        with n have "\<not> (takeWhile isWordChar (t @ ?z) \<noteq> [] \<and>
                     take 2 (dropWhile isWordChar (t @ ?z)) = ''}}'')"
          unfolding tw dw by blast
        then show ?thesis unfolding m by (simp only: if_False)
      qed
    qed
  qed
qed

lemma replacePlaceholders_around:
  assumes "key \<noteq> []" and "\<forall>c\<in>set key. isWordChar c"
  shows "replacePlaceholders f (pre @ ''{{'' @ key @ ''}}'' @ post) =
         replacePlaceholders f pre @ f key @ replacePlaceholders f post"
proof (induction f pre rule: replacePlaceholders.induct)
  case (1 f)
  show ?case using matchPlaceholder_at [OF assms] by simp
next
  case (2 f c cs)
  let ?z = "''{{'' @ key @ ''}}'' @ post"
  show ?case
  proof (cases "matchPlaceholder (c # cs)")
    case None
    then have "matchPlaceholder ((c # cs) @ ?z) = None"
      using matchPlaceholder_None_before [of "c # cs" "key @ ''}}'' @ post"] by simp
    then show ?thesis using None "2.IH"(1) by simp
  next
    case (Some a)
    obtain k rest where a: "a = (k, rest)" by (cases a)
    with Some have "matchPlaceholder ((c # cs) @ ?z) = Some (k, rest @ ?z)"
      using matchPlaceholder_extend [of "c # cs" k rest ?z] by (simp only:)
    then show ?thesis using Some a "2.IH"(2) by simp
  qed
qed

lemma replacePlaceholders_none:
  assumes "\<not> (\<exists>pre key post. s = pre @ ''{{'' @ key @ ''}}'' @ post \<and> key \<noteq> [] \<and>
               (\<forall>c\<in>set key. isWordChar c))"
  shows "replacePlaceholders f s = s"
  using assms
proof (induction f s rule: replacePlaceholders.induct)
  case (1 f)
  show ?case by simp
next
  case (2 f c cs)
  have none: "matchPlaceholder (c # cs) = None"
  proof (rule ccontr)
    assume "matchPlaceholder (c # cs) \<noteq> None"
    then obtain k rest where "matchPlaceholder (c # cs) = Some (k, rest)" by auto
    from matchPlaceholder_decomp [OF this]
    have "c # cs = [] @ ''{{'' @ k @ ''}}'' @ rest \<and> k \<noteq> [] \<and> (\<forall>c\<in>set k. isWordChar c)"
      by simp
    with "2.prems" show False by blast
  qed
  have "\<not> (\<exists>pre key post. cs = pre @ ''{{'' @ key @ ''}}'' @ post \<and> key \<noteq> [] \<and>
               (\<forall>c\<in>set key. isWordChar c))"
  proof
    assume "\<exists>pre key post. cs = pre @ ''{{'' @ key @ ''}}'' @ post \<and> key \<noteq> [] \<and>
               (\<forall>c\<in>set key. isWordChar c)"
    then obtain pre key post where "cs = pre @ ''{{'' @ key @ ''}}'' @ post" "key \<noteq> []"
      "\<forall>c\<in>set key. isWordChar c" by blast
    then have "c # cs = (c # pre) @ ''{{'' @ key @ ''}}'' @ post \<and> key \<noteq> [] \<and>
               (\<forall>c\<in>set key. isWordChar c)" by simp
    with "2.prems" show False by blast
  qed
  with "2.IH"(1) [OF none] none show ?case by simp
qed

text \<open>
  What \<^verbatim>\<open>interpolateVariables\<close> does. On a string payload it is
  \<^const>\<open>interpolateString\<close>. Wherever a placeholder \<^verbatim>\<open>{{key}}\<close> (a non-empty key of word
  characters) occurs in a string, with any text \<open>pre\<close> before it and \<open>post\<close>
  after it, the result is the interpolation of \<open>pre\<close>, then the stringified value of
  \<^verbatim>\<open>variables[key]\<close> when that is not \<^verbatim>\<open>undefined\<close> and the placeholder itself when
  it is, then the interpolation of \<open>post\<close>. A string in which no placeholder occurs is
  returned as it is. Arrays are interpolated element by element and objects value by
  value, keys kept; every other value is returned as it is. No case raises.
\<close>

lemma interpolateVariables_placeholders:
  "interpolateVariables stringify variables (JStr s) =
     JStr (interpolateString stringify variables s)
   \<and> (key \<noteq> [] \<and> (\<forall>c\<in>set key. isWordChar c) \<longrightarrow>
        interpolateString stringify variables (pre @ ''{{'' @ key @ ''}}'' @ post) =
          interpolateString stringify variables pre @
          (if getProperty variables key \<noteq> JUndefined
           then stringify (getProperty variables key)
           else ''{{'' @ key @ ''}}'') @
          interpolateString stringify variables post)
   \<and> ((\<nexists>pre key post. s = pre @ ''{{'' @ key @ ''}}'' @ post \<and> key \<noteq> [] \<and>
          (\<forall>c\<in>set key. isWordChar c)) \<longrightarrow>
        interpolateString stringify variables s = s)
   \<and> interpolateVariables stringify variables (JArr items) =
        JArr (map (interpolateVariables stringify variables) items)
   \<and> interpolateVariables stringify variables (JObj entries) =
        JObj (map (\<lambda>(k, v). (k, interpolateVariables stringify variables v)) entries)
   \<and> interpolateVariables stringify variables JUndefined = JUndefined
   \<and> interpolateVariables stringify variables JNull = JNull
   \<and> interpolateVariables stringify variables (JBool b) = JBool b
   \<and> interpolateVariables stringify variables (JNum n) = JNum n"
proof -
  have str: "interpolateVariables stringify variables (JStr s) =
               JStr (interpolateString stringify variables s)"
    by (cases s) (simp_all add: interpolateVariables.simps truthy_def interpolateString_def)
  have ph: "key \<noteq> [] \<and> (\<forall>c\<in>set key. isWordChar c) \<longrightarrow>
        interpolateString stringify variables (pre @ ''{{'' @ key @ ''}}'' @ post) =
          interpolateString stringify variables pre @
          (if getProperty variables key \<noteq> JUndefined
           then stringify (getProperty variables key)
           else ''{{'' @ key @ ''}}'') @
          interpolateString stringify variables post"
    unfolding interpolateString_def
    using replacePlaceholders_around [of key _ pre post] by blast
  have no: "(\<nexists>pre key post. s = pre @ ''{{'' @ key @ ''}}'' @ post \<and> key \<noteq> [] \<and>
          (\<forall>c\<in>set key. isWordChar c)) \<longrightarrow>
        interpolateString stringify variables s = s"
    unfolding interpolateString_def using replacePlaceholders_none [of s] by blast
  have arr: "interpolateVariables stringify variables (JArr items) =
        JArr (map (interpolateVariables stringify variables) items)"
    by (simp add: interpolateVariables.simps [of _ _ "JArr items"] truthy_def)
  have obj: "interpolateVariables stringify variables (JObj entries) =
        JObj (map (\<lambda>(k, v). (k, interpolateVariables stringify variables v)) entries)"
    by (simp add: interpolateVariables.simps [of _ _ "JObj entries"] truthy_def)
  have rest: "interpolateVariables stringify variables JUndefined = JUndefined"
    "interpolateVariables stringify variables JNull = JNull"
    "interpolateVariables stringify variables (JBool b) = JBool b"
    "interpolateVariables stringify variables (JNum n) = JNum n"
    by (simp_all add: interpolateVariables.simps truthy_def)
  from str ph no arr obj rest show ?thesis by (simp only: simp_thms)
qed

text \<open>
  A variable that a step has set is found; a name that is neither set nor inherited reads
  as \<^verbatim>\<open>undefined\<close>; an inherited name does not.
\<close>

lemma getProperty_cases:
  "getProperty (variables(key \<mapsto> v)) key = v"
  "variables key = None \<Longrightarrow> key \<noteq> ''__proto__'' \<Longrightarrow> key \<notin> set objectPrototypeFunctions \<Longrightarrow>
     getProperty variables key = JUndefined"
  "variables key = None \<Longrightarrow> key \<in> set objectPrototypeFunctions \<Longrightarrow>
     getProperty variables key \<noteq> JUndefined"
  by (simp_all add: getProperty_def inheritedProperty_def inheritedFunction_def)

text \<open>
  C7 (interpolation). Scenario E holds: with \<^verbatim>\<open>lastResult\<close> set to
  \<^verbatim>\<open>{"price": 100}\<close>, the template \<^verbatim>\<open>{"input": "{{lastResult}}"}\<close> becomes the
  stringified value. The claim fails for a placeholder whose name is a member that the
  variables object inherits: in the fresh context of a run, where no variable is set,
  the placeholders \<^verbatim>\<open>{{constructor}}\<close> and \<^verbatim>\<open>{{toString}}\<close> are replaced by the text
  \<^verbatim>\<open>undefined\<close> and \<^verbatim>\<open>{{__proto__}}\<close> by \<^verbatim>\<open>{}\<close>, while \<^verbatim>\<open>{{lastResult}}\<close> in
  the same string is left as it is.
\<close>

theorem inherited_name_is_not_left_verbatim:
  "interpolateVariables jsonText [''lastResult'' \<mapsto> JObj [(''price'', JNum 100)]]
     (JObj [(''input'', JStr ''{{lastResult}}'')]) =
     JObj [(''input'', JStr (jsonText (JObj [(''price'', JNum 100)])))]
   \<and> ctx_variables (initialContext sampleEnv ''Summarize bitcoin news'') ''constructor'' = None
   \<and> interpolateVariables jsonText
        (ctx_variables (initialContext sampleEnv ''Summarize bitcoin news''))
        (JObj [(''input'', JStr ''{{constructor}}|{{toString}}|{{__proto__}}|{{lastResult}}'')]) =
      JObj [(''input'', JStr ''undefined|undefined|{}|{{lastResult}}'')]"
  by code_simp


section \<open>Properties of the plan builder\<close>

text \<open>
  The heuristic tiers keep both bounds: every plan they return costs at most the budget
  that \<^verbatim>\<open>createPlan\<close> works with, and has at most as many steps as its step ceiling
  when that is at least one.
\<close>

lemma mkSteps_cost:
  "sum_list (map (\<lambda>step. case step_estimatedCost step of Some c \<Rightarrow> c | None \<Rightarrow> 0)
     (mkSteps i sel)) = sum_list (map svc_amount sel)"
  by (induction sel arbitrary: i) simp_all

lemma mkSteps_length: "length (mkSteps i sel) = length sel"
  by (induction sel arbitrary: i) simp_all

lemma mkPlan_cost: "planCost (mkPlan now q sel rc) = sum_list (map svc_amount sel)"
  by (simp add: planCost_def mkPlan_def Let_def mkSteps_cost)

lemma mkPlan_length: "length (plan_steps (mkPlan now q sel rc)) = length sel"
  by (simp add: mkPlan_def Let_def mkSteps_length)

lemma cheapestPlan_bounds:
  "cheapestPlan now q svcs mb = Some plan \<Longrightarrow>
   planCost plan \<le> mb \<and> length (plan_steps plan) = 1"
  by (auto simp add: cheapestPlan_def mkPlan_cost mkPlan_length split: list.splits if_splits)

lemma keywordSelect_inv:
  "keywordSelect ms mb xs sel rc = (sel', rc') \<Longrightarrow>
   rc = sum_list (map svc_amount sel) \<Longrightarrow> sel = [] \<or> rc \<le> mb \<Longrightarrow>
   rc' = sum_list (map svc_amount sel') \<and> (sel' = [] \<or> rc' \<le> mb) \<and>
   int (length sel') \<le> max ms (int (length sel))"
proof (induction ms mb xs sel rc rule: keywordSelect.induct)
  case (1 maxSteps maxBudget selectedServices runningCost)
  then show ?case by auto
next
  case (2 maxSteps maxBudget service score rest selectedServices runningCost)
  show ?case
  proof (cases "int (length selectedServices) \<ge> maxSteps \<or>
                (score = 0 \<and> length selectedServices > 0)")
    case True
    with "2.prems"(1) have "sel' = selectedServices \<and> rc' = runningCost"
      by (auto split: if_splits)
    with "2.prems"(2,3) show ?thesis by auto
  next
    case False
    show ?thesis
    proof (cases "runningCost + svc_amount service \<le> maxBudget")
      case True
      with False "2.prems"(1)
      have k: "keywordSelect maxSteps maxBudget rest (selectedServices @ [service])
               (runningCost + svc_amount service) = (sel', rc')" by auto
      from "2.IH"(1) [OF _ _ True k] False "2.prems"(2) True
      show ?thesis by auto
    next
      case nb: False
      with False "2.prems"(1)
      have k: "keywordSelect maxSteps maxBudget rest selectedServices runningCost = (sel', rc')"
        by auto
      from "2.IH"(2) [OF _ _ nb k] False "2.prems"(2,3)
      show ?thesis by auto
    qed
  qed
qed

lemma matchTasks_inv:
  "matchTasks svcs mb tasks sel rc = (sel', rc') \<Longrightarrow>
   rc = sum_list (map svc_amount sel) \<Longrightarrow> sel = [] \<or> rc \<le> mb \<Longrightarrow>
   rc' = sum_list (map svc_amount sel') \<and> (sel' = [] \<or> rc' \<le> mb) \<and>
   length sel' \<le> length sel + length tasks"
proof (induction tasks arbitrary: sel rc)
  case Nil
  then show ?case by auto
next
  case (Cons task rest)
  obtain b sc where bs: "bestServiceLoop task sel svcs None 0 = (b, sc)"
    by (cases "bestServiceLoop task sel svcs None 0") auto
  show ?case
  proof (cases "\<exists>best. b = Some best \<and> sc > 0 \<and> rc + svc_amount best \<le> mb")
    case True
    then obtain best where best: "b = Some best" "sc > 0" "rc + svc_amount best \<le> mb" by blast
    with bs Cons.prems(1)
    have m: "matchTasks svcs mb rest (sel @ [best]) (rc + svc_amount best) = (sel', rc')"
      by simp
    from Cons.IH [OF m] Cons.prems(2) best(3) show ?thesis by auto
  next
    case False
    with bs Cons.prems(1)
    have m: "matchTasks svcs mb rest sel rc = (sel', rc')"
      by (cases b) (auto split: if_splits)
    from Cons.IH [OF m Cons.prems(2,3)] show ?thesis by auto
  qed
qed

lemma slice0_length: "0 \<le> k \<Longrightarrow> int (length (slice0 k xs)) \<le> k"
  by (simp add: slice0_def)

lemma createKeywordBasedPlan_bounds:
  assumes "createKeywordBasedPlan now q svcs ms mb = Some plan"
  shows "planCost plan \<le> mb \<and> (1 \<le> ms \<longrightarrow> int (length (plan_steps plan)) \<le> ms)"
proof -
  define sorted where "sorted = sortBy (\<lambda>a b. if snd b \<noteq> snd a then snd b - snd a
                                   else svc_amount (fst a) - svc_amount (fst b))
                     (map (\<lambda>service. (service, keywordScore (queryWords (toLowerCase q)) service)) svcs)"
  obtain sel rc where k: "keywordSelect ms mb sorted [] 0 = (sel, rc)"
    by (cases "keywordSelect ms mb sorted [] 0") auto
  from keywordSelect_inv [OF k]
  have inv: "rc = sum_list (map svc_amount sel)" "sel = [] \<or> rc \<le> mb"
    "int (length sel) \<le> max ms 0" by auto
  show ?thesis
  proof (cases "sel = []")
    case True
    with assms k have "cheapestPlan now q svcs mb = Some plan"
      by (simp add: createKeywordBasedPlan_def Let_def sorted_def)
    from cheapestPlan_bounds [OF this] show ?thesis by simp
  next
    case False
    with assms k have "plan = mkPlan now q sel rc"
      by (simp add: createKeywordBasedPlan_def Let_def sorted_def)
    with inv False show ?thesis by (auto simp add: mkPlan_cost mkPlan_length)
  qed
qed

lemma createHeuristicPlan_bounds:
  assumes "createHeuristicPlan now q svcs ms mb = Some plan"
  shows "planCost plan \<le> mb \<and> (1 \<le> ms \<longrightarrow> int (length (plan_steps plan)) \<le> ms)"
proof (cases "detectTasks (toLowerCase q) taskPatterns [] = []")
  case True
  with assms have "createKeywordBasedPlan now q svcs ms mb = Some plan"
    by (simp add: createHeuristicPlan_def Let_def)
  then show ?thesis by (rule createKeywordBasedPlan_bounds)
next
  case False
  define tasks where "tasks = slice0 ms (detectTasks (toLowerCase q) taskPatterns [])"
  obtain sel rc where m: "matchTasks svcs mb tasks [] 0 = (sel, rc)"
    by (cases "matchTasks svcs mb tasks [] 0") auto
  from matchTasks_inv [OF m]
  have inv: "rc = sum_list (map svc_amount sel)" "sel = [] \<or> rc \<le> mb"
    "length sel \<le> length tasks" by auto
  show ?thesis
  proof (cases "sel = []")
    case True
    with assms False m have "cheapestPlan now q svcs mb = Some plan"
      by (simp add: createHeuristicPlan_def Let_def tasks_def)
    from cheapestPlan_bounds [OF this] show ?thesis by simp
  next
    case ne: False
    with assms False m have "plan = mkPlan now q sel rc"
      by (simp add: createHeuristicPlan_def Let_def tasks_def)
    moreover have "1 \<le> ms \<Longrightarrow> int (length tasks) \<le> ms"
      unfolding tasks_def by (rule slice0_length) simp
    ultimately show ?thesis using inv ne by (auto simp add: mkPlan_cost mkPlan_length)
  qed
qed

lemma heuristic_tier_keeps_bounds:
  assumes "createPlan ai now q svcs opts = Some plan"
    and "ai = None \<or> ai = Some AIFailure"
  shows "planCost plan \<le> effectiveBudget opts \<and>
         (1 \<le> effectiveSteps opts \<longrightarrow> int (length (plan_steps plan)) \<le> effectiveSteps opts)"
proof -
  from assms have "createHeuristicPlan now q svcs (effectiveSteps opts) (effectiveBudget opts) = Some plan"
    by (auto simp add: createPlan_def Let_def createAIPlan_def)
  then show ?thesis by (rule createHeuristicPlan_bounds)
qed

text \<open>
  C1 (plan budget). With a language model, \<^verbatim>\<open>createPlan\<close> returns what
  \<^verbatim>\<open>createAIPlan\<close> builds from the model's answer, and nothing compares its cost with
  the budget. For a request with a budget of 1000, an answer that names the summarizer
  (price 2000) in two steps gives a plan whose estimated costs sum to 4000.
\<close>

theorem ai_plan_exceeds_budget:
  "map_option planCost
     (createPlan (Some twoStepAnswer) 4500 ''Summarize this text''
        [bitcoinNews, aiSummarizer] tightOptions) = Some 4000
   \<and> opt_maxBudget tightOptions = Some 1000"
  by code_simp

text \<open>
  C5 (step count). In the same way nothing compares the number of steps of the model's
  answer with the step ceiling: for a request with at most one step, the same answer
  gives a plan of two steps.
\<close>

theorem ai_plan_exceeds_step_ceiling:
  "map_option (\<lambda>plan. length (plan_steps plan))
     (createPlan (Some twoStepAnswer) 4500 ''Summarize this text''
        [bitcoinNews, aiSummarizer] tightOptions) = Some 2
   \<and> opt_maxSteps tightOptions = Some 1"
  by code_simp


section \<open>Properties of the orchestrator\<close>

subsection \<open>The loop over the steps\<close>

lemma executeStep_calls:
  "executeStep sf net w step ctx svcs sp = (r, sp', calls) \<Longrightarrow>
   StepStart s j m \<notin> set calls"
  by (auto simp add: executeStep_def Let_def split: option.splits prod.splits if_splits)

text \<open>A step that throws, when its \<^verbatim>\<open>required\<close> flag is not \<^verbatim>\<open>false\<close>, ends the loop.\<close>

lemma runSteps_required_failure:
  assumes "executeStep sf net (w i) step ctx svcs sp = (Inl message, sp1, calls)"
    and "step_required step \<noteq> Some False"
  shows "runSteps sf net w svcs n i (step # rest) ctx sp =
           (Some (''Required step failed: '' @ message),
            ctx\<lparr>ctx_results := ctx_results ctx @
                  [\<lparr>sr_stepId = step_id step, sr_success = False, sr_data = JUndefined,
                    sr_service = None, sr_payment = None, sr_cost = None,
                    sr_error = Some message\<rparr>]\<rparr>,
            sp1, StepStart step i n # calls @ [StepError step message])"
  using assms by (simp add: Let_def)

text \<open>
  The loop over \<open>earlier @ later\<close>, when it does not throw in \<open>earlier\<close>, goes on
  with \<open>later\<close> from the context and the ledger that \<open>earlier\<close> leaves.
\<close>

lemma runSteps_append:
  assumes "runSteps sf net w svcs n i earlier ctx0 sp0 = (None, ctx, sp1, ev1)"
    and "runSteps sf net w svcs n (i + length earlier) later ctx sp1 = (t, c, s, ev2)"
  shows "runSteps sf net w svcs n i (earlier @ later) ctx0 sp0 = (t, c, s, ev1 @ ev2)"
  using assms
proof (induction earlier arbitrary: i ctx0 sp0 ev1)
  case Nil
  then show ?case by simp
next
  case (Cons x xs)
  obtain r spx calls where ex: "executeStep sf net (w i) x ctx0 svcs sp0 = (r, spx, calls)"
    by (cases "executeStep sf net (w i) x ctx0 svcs sp0") auto
  show ?case
  proof (cases r)
    case (Inr result)
    define ctx1 where "ctx1 = ctx0
                \<lparr>ctx_results := ctx_results ctx0 @ [result],
                 ctx_variables :=
                   (if sr_success result \<and> truthy (sr_data result)
                    then (ctx_variables ctx0)
                           (''step'' @ show_nat (i + 1) \<mapsto> sr_data result,
                            ''lastResult'' \<mapsto> sr_data result)
                    else ctx_variables ctx0),
                 ctx_totalSpent := ctx_totalSpent ctx0 +
                   (case sr_cost result of Some c \<Rightarrow> c | None \<Rightarrow> 0)\<rparr>"
    obtain t2 c2 s2 e2 where
      rec: "runSteps sf net w svcs n (i + 1) xs ctx1 spx = (t2, c2, s2, e2)"
      by (cases "runSteps sf net w svcs n (i + 1) xs ctx1 spx") auto
    from Cons.prems(1) ex Inr rec
    have parts: "t2 = None" "c2 = ctx" "s2 = sp1"
      "ev1 = StepStart x i n # calls @ StepComplete x result # e2"
      by (simp_all add: ctx1_def Let_def)
    from Cons.prems(2) have later: "runSteps sf net w svcs n (i + 1 + length xs) later ctx sp1 =
                                      (t, c, s, ev2)"
      by (simp add: add.commute add.left_commute)
    from rec parts have "runSteps sf net w svcs n (i + 1) xs ctx1 spx = (None, ctx, sp1, e2)"
      by simp
    from Cons.IH [OF this later]
    have "runSteps sf net w svcs n (i + 1) (xs @ later) ctx1 spx = (t, c, s, e2 @ ev2)" .
    with ex Inr parts show ?thesis by (simp add: ctx1_def Let_def)
  next
    case (Inl message)
    define ctx1 where "ctx1 = ctx0\<lparr>ctx_results := ctx_results ctx0 @
        [\<lparr>sr_stepId = step_id x, sr_success = False, sr_data = JUndefined,
          sr_service = None, sr_payment = None, sr_cost = None,
          sr_error = Some message\<rparr>]\<rparr>"
    have opt: "\<not> step_required x \<noteq> Some False"
    proof
      assume "step_required x \<noteq> Some False"
      from runSteps_required_failure [where w = w and i = i and n = n and rest = xs, OF ex [unfolded Inl] this] Cons.prems(1)
      show False by simp
    qed
    obtain t2 c2 s2 e2 where
      rec: "runSteps sf net w svcs n (i + 1) xs ctx1 spx = (t2, c2, s2, e2)"
      by (cases "runSteps sf net w svcs n (i + 1) xs ctx1 spx") auto
    from Cons.prems(1) ex Inl opt rec
    have parts: "t2 = None" "c2 = ctx" "s2 = sp1"
      "ev1 = StepStart x i n # calls @ StepError x message # e2"
      by (simp_all add: ctx1_def Let_def)
    from Cons.prems(2) have later: "runSteps sf net w svcs n (i + 1 + length xs) later ctx sp1 =
                                      (t, c, s, ev2)"
      by (simp add: add.commute add.left_commute)
    from rec parts have "runSteps sf net w svcs n (i + 1) xs ctx1 spx = (None, ctx, sp1, e2)"
      by simp
    from Cons.IH [OF this later]
    have "runSteps sf net w svcs n (i + 1) (xs @ later) ctx1 spx = (t, c, s, e2 @ ev2)" .
    with ex Inl opt parts show ?thesis by (simp add: ctx1_def Let_def)
  qed
qed

text \<open>The loop started at index \<open>i\<close> announces steps of its own index range only.\<close>

lemma runSteps_start_index:
  "runSteps sf net w svcs n i steps ctx sp = (t, c, s, evs) \<Longrightarrow>
   StepStart st j m \<in> set evs \<Longrightarrow> i \<le> j \<and> j < i + length steps"
proof (induction steps arbitrary: i ctx sp t c s evs)
  case Nil
  then show ?case by simp
next
  case (Cons x xs)
  obtain r spx calls where ex: "executeStep sf net (w i) x ctx svcs sp = (r, spx, calls)"
    by (cases "executeStep sf net (w i) x ctx svcs sp") auto
  note nocall = executeStep_calls [OF ex, of st j m]
  show ?case
  proof (cases r)
    case (Inr result)
    define ctx1 where "ctx1 = ctx
                \<lparr>ctx_results := ctx_results ctx @ [result],
                 ctx_variables :=
                   (if sr_success result \<and> truthy (sr_data result)
                    then (ctx_variables ctx)
                           (''step'' @ show_nat (i + 1) \<mapsto> sr_data result,
                            ''lastResult'' \<mapsto> sr_data result)
                    else ctx_variables ctx),
                 ctx_totalSpent := ctx_totalSpent ctx +
                   (case sr_cost result of Some c \<Rightarrow> c | None \<Rightarrow> 0)\<rparr>"
    obtain t2 c2 s2 e2 where
      rec: "runSteps sf net w svcs n (i + 1) xs ctx1 spx = (t2, c2, s2, e2)"
      by (cases "runSteps sf net w svcs n (i + 1) xs ctx1 spx") auto
    from Cons.prems(1) ex Inr rec
    have "evs = StepStart x i n # calls @ StepComplete x result # e2"
      by (simp add: ctx1_def Let_def)
    with Cons.prems(2) nocall have "j = i \<or> StepStart st j m \<in> set e2" by auto
    with Cons.IH [OF rec] show ?thesis by auto
  next
    case (Inl message)
    define ctx1 where "ctx1 = ctx\<lparr>ctx_results := ctx_results ctx @
        [\<lparr>sr_stepId = step_id x, sr_success = False, sr_data = JUndefined,
          sr_service = None, sr_payment = None, sr_cost = None,
          sr_error = Some message\<rparr>]\<rparr>"
    show ?thesis
    proof (cases "step_required x \<noteq> Some False")
      case True
      from runSteps_required_failure [where w = w and i = i and n = n and rest = xs, OF ex [unfolded Inl] True] Cons.prems(1)
      have "evs = StepStart x i n # calls @ [StepError x message]" by simp
      with Cons.prems(2) nocall show ?thesis by auto
    next
      case False
      obtain t2 c2 s2 e2 where
        rec: "runSteps sf net w svcs n (i + 1) xs ctx1 spx = (t2, c2, s2, e2)"
        by (cases "runSteps sf net w svcs n (i + 1) xs ctx1 spx") auto
      from Cons.prems(1) ex Inl False rec
      have "evs = StepStart x i n # calls @ StepError x message # e2"
        by (simp add: ctx1_def Let_def)
      with Cons.prems(2) nocall have "j = i \<or> StepStart st j m \<in> set e2" by auto
      with Cons.IH [OF rec] show ?thesis by auto
    qed
  qed
qed

subsection \<open>A run whose loop throws\<close>

lemma executePipeline_thrown:
  assumes "re_services env \<noteq> []"
    and "plannedPipeline config env query options = Some plan"
    and "plan_steps plan \<noteq> []"
    and "allowed (canSpend (re_today env) (plan_estimatedTotalCost plan) spending)"
    and "runSteps stringify (cfg_network config) (re_world env) (re_services env)
           (length (plan_steps plan)) 0 (plan_steps plan) (initialContext env query) spending =
           (Some m, ctx, spending', evs)"
  shows "executePipeline stringify config env query options spending memory =
           (failedPipeline env query m, spending', memory, PlanCreated plan # evs)"
  using assms unfolding executePipeline_def plannedPipeline_def Let_def by simp

text \<open>
  A run that has a plan and may spend its cost, whose loop passes the steps \<open>earlier\<close>
  without throwing and then comes to a step that throws and whose \<^verbatim>\<open>required\<close> flag is
  not \<^verbatim>\<open>false\<close>: what \<^verbatim>\<open>executePipeline\<close> returns.
\<close>

lemma required_failure_run:
  assumes services: "re_services env \<noteq> []"
    and planned: "plannedPipeline config env query options = Some plan"
    and steps: "plan_steps plan = earlier @ step # rest"
    and afford: "allowed (canSpend (re_today env) (plan_estimatedTotalCost plan) spending)"
    and reach: "runSteps stringify (cfg_network config) (re_world env) (re_services env)
                  (length (plan_steps plan)) 0 earlier (initialContext env query) spending =
                  (None, ctx, spending1, events1)"
    and fails: "executeStep stringify (cfg_network config) (re_world env (length earlier))
                  step ctx (re_services env) spending1 = (Inl message, spending2, calls)"
    and required: "step_required step \<noteq> Some False"
  shows "executePipeline stringify config env query options spending memory =
           (failedPipeline env query (''Required step failed: '' @ message), spending2, memory,
            PlanCreated plan # events1 @
              StepStart step (length earlier) (length (plan_steps plan)) # calls @
              [StepError step message])"
proof -
  let ?n = "length (plan_steps plan)"
  from runSteps_required_failure [where w = "re_world env" and i = "length earlier" and n = ?n
      and rest = rest, OF fails required]
  have "runSteps stringify (cfg_network config) (re_world env) (re_services env) ?n
          (0 + length earlier) (step # rest) ctx spending1 =
        (Some (''Required step failed: '' @ message),
         ctx\<lparr>ctx_results := ctx_results ctx @
               [\<lparr>sr_stepId = step_id step, sr_success = False, sr_data = JUndefined,
                 sr_service = None, sr_payment = None, sr_cost = None,
                 sr_error = Some message\<rparr>]\<rparr>,
         spending2, StepStart step (length earlier) ?n # calls @ [StepError step message])"
    by simp
  from runSteps_append [OF reach this]
  have "runSteps stringify (cfg_network config) (re_world env) (re_services env) ?n 0
          (plan_steps plan) (initialContext env query) spending =
        (Some (''Required step failed: '' @ message),
         ctx\<lparr>ctx_results := ctx_results ctx @
               [\<lparr>sr_stepId = step_id step, sr_success = False, sr_data = JUndefined,
                 sr_service = None, sr_payment = None, sr_cost = None,
                 sr_error = Some message\<rparr>]\<rparr>,
         spending2,
         events1 @ StepStart step (length earlier) ?n # calls @ [StepError step message])"
    by (simp add: steps)
  moreover have "plan_steps plan \<noteq> []" by (simp add: steps)
  ultimately show ?thesis
    using executePipeline_thrown [OF services planned _ afford] by blast
qed

text \<open>When the payment of a step fails with a text, the step throws that text.\<close>

lemma executeStep_payment_failure:
  assumes "find (\<lambda>s. svc_id s = step_serviceId step) allServices = Some service"
    and "executePayment network world service
           (interpolateVariables stringify (ctx_variables ctx) (step_requestData step)) =
           (payment, responseData)"
    and "\<not> pay_success payment" and "pay_error payment = Some e" and "e \<noteq> []"
  shows "executeStep stringify network world step ctx allServices spending =
           (Inl e, spending,
            [PaymentCall service
               (interpolateVariables stringify (ctx_variables ctx) (step_requestData step))])"
  using assms by (simp add: executeStep_def Let_def orElse_def)


subsection \<open>The sample runs, evaluated\<close>

lemma sample_run:
  "executePipeline jsonText sampleConfig sampleEnv ''Summarize bitcoin news'' noOptions
     (newSpendingTracker 100000 1000000) [] =
   (failedPipeline sampleEnv ''Summarize bitcoin news''
      ''Required step failed: insufficient balance'',
    recordPayment 5000 1000 ''STX'' ''demo-bitcoin-news'' ''Bitcoin News API'' (Some ''0xabc'')
      (newSpendingTracker 100000 1000000),
    [],
    sampleEvents)"
  by code_simp

lemma sample_payment_2:
  "executePayment ''testnet'' (sampleWorld 1) aiSummarizer
     (JObj [(''input'', JStr (jsonText (JObj [(''price'', JNum 100)])))]) =
   (failedPayment ''insufficient balance'', JUndefined)"
  by code_simp

lemma rejecting_planned:
  "plannedPipeline sampleConfig rejectingEnv ''Summarize bitcoin news'' noOptions =
     Some samplePlan"
  by code_simp

lemma rejecting_afford:
  "allowed (canSpend (re_today rejectingEnv) (plan_estimatedTotalCost samplePlan)
     (newSpendingTracker 100000 1000000))"
  by code_simp

lemma rejecting_find:
  "find (\<lambda>s. svc_id s = step_serviceId sampleStep1) (re_services rejectingEnv) =
     Some bitcoinNews"
  by code_simp

lemma rejecting_request:
  "interpolateVariables jsonText
     (ctx_variables (initialContext rejectingEnv ''Summarize bitcoin news''))
     (step_requestData sampleStep1) = JUndefined"
  by code_simp

lemma rejecting_payment:
  "executePayment (cfg_network sampleConfig) (re_world rejectingEnv 0) bitcoinNews JUndefined =
     (failedPayment ''insufficient balance'', JUndefined)"
  by code_simp

lemma rejecting_step:
  "executeStep jsonText (cfg_network sampleConfig) (re_world rejectingEnv 0) sampleStep1
     (initialContext rejectingEnv ''Summarize bitcoin news'') (re_services rejectingEnv)
     (newSpendingTracker 100000 1000000) =
   (Inl ''insufficient balance'', newSpendingTracker 100000 1000000,
    [PaymentCall bitcoinNews JUndefined])"
  by code_simp

text \<open>
  C2 (what an aborted run returns). In the sample run the first step completes and its
  payment of 1000 is in the spend ledger; the second, required step fails. The returned
  result has no step results, a total cost of zero and no plan, and nothing is saved to
  the memory of past runs: the outer \<^verbatim>\<open>catch\<close> block builds its result without the
  context of the run and does not call \<^verbatim>\<open>savePipeline\<close>.
\<close>

theorem aborted_run_drops_partial_results:
  "StepComplete sampleStep1 sampleResult1 \<in>
     set (snd (snd (snd (executePipeline jsonText sampleConfig sampleEnv
       ''Summarize bitcoin news'' noOptions (newSpendingTracker 100000 1000000) []))))
   \<and> map rec_amount (records (fst (snd (executePipeline jsonText sampleConfig sampleEnv
       ''Summarize bitcoin news'' noOptions (newSpendingTracker 100000 1000000) [])))) = [1000]
   \<and> \<not> pr_success (fst (executePipeline jsonText sampleConfig sampleEnv
       ''Summarize bitcoin news'' noOptions (newSpendingTracker 100000 1000000) []))
   \<and> pr_stepResults (fst (executePipeline jsonText sampleConfig sampleEnv
       ''Summarize bitcoin news'' noOptions (newSpendingTracker 100000 1000000) [])) = []
   \<and> pr_totalCost (fst (executePipeline jsonText sampleConfig sampleEnv
       ''Summarize bitcoin news'' noOptions (newSpendingTracker 100000 1000000) [])) = 0
   \<and> pr_plan (fst (executePipeline jsonText sampleConfig sampleEnv
       ''Summarize bitcoin news'' noOptions (newSpendingTracker 100000 1000000) [])) = None
   \<and> fst (snd (snd (executePipeline jsonText sampleConfig sampleEnv
       ''Summarize bitcoin news'' noOptions (newSpendingTracker 100000 1000000) []))) = []"
  unfolding sample_run
  by (simp add: sampleEvents_def failedPipeline_def recordPayment_def newSpendingTracker_def)

text \<open>
  C3 (abort on required failure). Take any run that has a plan and may spend its cost.
  Let its loop pass the steps \<open>earlier\<close> without throwing, and let the next step, whose
  \<^verbatim>\<open>required\<close> flag is not \<^verbatim>\<open>false\<close>, fail: \<^verbatim>\<open>executeStep\<close> throws. Then, whatever
  steps \<open>rest\<close> follow in the plan, the run ends there. Its events are those of the
  earlier steps, the start of the failing step, its payment call if it made one, and the
  call of \<^verbatim>\<open>onStepError\<close>, which is the last event. So no \<^verbatim>\<open>onStepStart\<close> is called
  for a step behind the failing one, no payment call is made for one, and the result has
  \<^verbatim>\<open>success = false\<close>.
\<close>

theorem required_failure_ends_run:
  assumes "re_services env \<noteq> []"
    and "plannedPipeline config env query options = Some plan"
    and "plan_steps plan = earlier @ step # rest"
    and "allowed (canSpend (re_today env) (plan_estimatedTotalCost plan) spending)"
    and "runSteps stringify (cfg_network config) (re_world env) (re_services env)
           (length (plan_steps plan)) 0 earlier (initialContext env query) spending =
           (None, ctx, spending1, events1)"
    and "executeStep stringify (cfg_network config) (re_world env (length earlier))
           step ctx (re_services env) spending1 = (Inl message, spending2, calls)"
    and "step_required step \<noteq> Some False"
  shows "snd (snd (snd (executePipeline stringify config env query options spending memory))) =
           PlanCreated plan # events1 @
             StepStart step (length earlier) (length (plan_steps plan)) # calls @
             [StepError step message]
       \<and> (\<forall>s j m. StepStart s j m \<in> set (snd (snd (snd
              (executePipeline stringify config env query options spending memory)))) \<longrightarrow>
             j \<le> length earlier)
       \<and> (\<forall>service requestData. PaymentCall service requestData \<in> set (snd (snd (snd
              (executePipeline stringify config env query options spending memory)))) \<longrightarrow>
             PaymentCall service requestData \<in> set (events1 @ calls))
       \<and> \<not> pr_success (fst (executePipeline stringify config env query options spending memory))"
proof -
  note run = required_failure_run [OF assms, of memory]
  have starts: "j \<le> length earlier"
    if "StepStart s j m \<in> set (PlanCreated plan # events1 @
             StepStart step (length earlier) (length (plan_steps plan)) # calls @
             [StepError step message])" for s j m
  proof -
    from that executeStep_calls [OF assms(6), of s j m]
    have "StepStart s j m \<in> set events1 \<or> j = length earlier" by auto
    with runSteps_start_index [OF assms(5), of s j m] show ?thesis by auto
  qed
  show ?thesis
    unfolding run using starts by (auto simp add: failedPipeline_def)
qed

theorem required_failure_ends_run_witness:
  "re_services rejectingEnv \<noteq> []
   \<and> plannedPipeline sampleConfig rejectingEnv ''Summarize bitcoin news'' noOptions =
       Some samplePlan
   \<and> plan_steps samplePlan = [] @ sampleStep1 # [sampleStep2]
   \<and> allowed (canSpend (re_today rejectingEnv) (plan_estimatedTotalCost samplePlan)
        (newSpendingTracker 100000 1000000))
   \<and> executeStep jsonText (cfg_network sampleConfig) (re_world rejectingEnv 0) sampleStep1
        (initialContext rejectingEnv ''Summarize bitcoin news'') (re_services rejectingEnv)
        (newSpendingTracker 100000 1000000) =
      (Inl ''insufficient balance'', newSpendingTracker 100000 1000000,
       [PaymentCall bitcoinNews JUndefined])
   \<and> step_required sampleStep1 \<noteq> Some False
   \<and> snd (snd (snd (executePipeline jsonText sampleConfig rejectingEnv
        ''Summarize bitcoin news'' noOptions (newSpendingTracker 100000 1000000) []))) =
      rejectedEvents
   \<and> StepStart sampleStep2 1 2 \<notin> set rejectedEvents
   \<and> \<not> pr_success (fst (executePipeline jsonText sampleConfig rejectingEnv
        ''Summarize bitcoin news'' noOptions (newSpendingTracker 100000 1000000) []))"
proof -
  have h1: "re_services rejectingEnv \<noteq> []"
    by (simp add: rejectingEnv_def)
  have h3: "plan_steps samplePlan = [] @ sampleStep1 # [sampleStep2]"
    by (simp add: samplePlan_def)
  have h5: "runSteps jsonText (cfg_network sampleConfig) (re_world rejectingEnv)
              (re_services rejectingEnv) (length (plan_steps samplePlan)) 0 []
              (initialContext rejectingEnv ''Summarize bitcoin news'')
              (newSpendingTracker 100000 1000000) =
            (None, initialContext rejectingEnv ''Summarize bitcoin news'',
             newSpendingTracker 100000 1000000, [])"
    by simp
  have h6: "executeStep jsonText (cfg_network sampleConfig)
              (re_world rejectingEnv (length ([] :: TaskStep list))) sampleStep1
              (initialContext rejectingEnv ''Summarize bitcoin news'')
              (re_services rejectingEnv) (newSpendingTracker 100000 1000000) =
            (Inl ''insufficient balance'', newSpendingTracker 100000 1000000,
             [PaymentCall bitcoinNews JUndefined])"
    using rejecting_step by simp
  have h7: "step_required sampleStep1 \<noteq> Some False"
    by (simp add: sampleStep1_def)
  from required_failure_ends_run [OF h1 rejecting_planned h3 rejecting_afford h5 h6 h7, of "[]"]
  have ev: "snd (snd (snd (executePipeline jsonText sampleConfig rejectingEnv
        ''Summarize bitcoin news'' noOptions (newSpendingTracker 100000 1000000) []))) =
      rejectedEvents"
    and fl: "\<not> pr_success (fst (executePipeline jsonText sampleConfig rejectingEnv
        ''Summarize bitcoin news'' noOptions (newSpendingTracker 100000 1000000) []))"
    by (simp_all add: rejectedEvents_def samplePlan_def)
  have ns: "StepStart sampleStep2 1 2 \<notin> set rejectedEvents"
    by (simp add: rejectedEvents_def)
  from h1 rejecting_planned h3 rejecting_afford rejecting_step h7 ev ns fl
  show ?thesis by blast
qed

text \<open>
  C4 as the claim states it fails: in the sample run the payment call of the required
  second step returns \<^verbatim>\<open>success = false\<close> with the error \<^verbatim>\<open>insufficient balance\<close>, and
  the top-level error of the result is that text behind the prefix
  \<^verbatim>\<open>Required step failed: \<close>, not the text itself.
\<close>

theorem top_level_error_is_prefixed:
  "fst (executePayment ''testnet'' (sampleWorld 1) aiSummarizer
         (JObj [(''input'', JStr (jsonText (JObj [(''price'', JNum 100)])))])) =
     failedPayment ''insufficient balance''
   \<and> pay_success (failedPayment ''insufficient balance'') = False
   \<and> pay_error (failedPayment ''insufficient balance'') = Some ''insufficient balance''
   \<and> step_required sampleStep2 = Some True
   \<and> PaymentCall aiSummarizer
        (JObj [(''input'', JStr (jsonText (JObj [(''price'', JNum 100)])))]) \<in>
      set (snd (snd (snd (executePipeline jsonText sampleConfig sampleEnv
        ''Summarize bitcoin news'' noOptions (newSpendingTracker 100000 1000000) []))))
   \<and> pr_success (fst (executePipeline jsonText sampleConfig sampleEnv
        ''Summarize bitcoin news'' noOptions (newSpendingTracker 100000 1000000) [])) = False
   \<and> pr_error (fst (executePipeline jsonText sampleConfig sampleEnv
        ''Summarize bitcoin news'' noOptions (newSpendingTracker 100000 1000000) [])) =
      Some ''Required step failed: insufficient balance''
   \<and> pr_error (fst (executePipeline jsonText sampleConfig sampleEnv
        ''Summarize bitcoin news'' noOptions (newSpendingTracker 100000 1000000) [])) \<noteq>
      Some ''insufficient balance''"
  unfolding sample_run sample_payment_2
  by (simp add: sampleEvents_def failedPipeline_def failedPayment_def sampleStep2_def)

text \<open>
  C4, amended. Take any run that has a plan and may spend its cost. Let its loop pass
  the steps \<open>earlier\<close> without throwing, and let the payment call of the next step,
  whose \<^verbatim>\<open>required\<close> flag is not \<^verbatim>\<open>false\<close>, return \<^verbatim>\<open>success = false\<close> with a
  non-empty error text. Then, whatever steps follow in the plan, the run returns
  \<^verbatim>\<open>success = false\<close>, its top-level error is the text \<^verbatim>\<open>Required step failed: \<close>
  followed by the error text of the payment, and the failed step adds nothing to the
  spend ledger.
\<close>

theorem required_failure_error_text:
  assumes "re_services env \<noteq> []"
    and "plannedPipeline config env query options = Some plan"
    and "plan_steps plan = earlier @ step # rest"
    and "allowed (canSpend (re_today env) (plan_estimatedTotalCost plan) spending)"
    and "runSteps stringify (cfg_network config) (re_world env) (re_services env)
           (length (plan_steps plan)) 0 earlier (initialContext env query) spending =
           (None, ctx, spending1, events1)"
    and "find (\<lambda>s. svc_id s = step_serviceId step) (re_services env) = Some service"
    and "executePayment (cfg_network config) (re_world env (length earlier)) service
           (interpolateVariables stringify (ctx_variables ctx) (step_requestData step)) =
           (payment, responseData)"
    and "\<not> pay_success payment" and "pay_error payment = Some e" and "e \<noteq> []"
    and "step_required step \<noteq> Some False"
  shows "\<not> pr_success (fst (executePipeline stringify config env query options spending memory))
       \<and> pr_error (fst (executePipeline stringify config env query options spending memory)) =
           Some (''Required step failed: '' @ e)
       \<and> fst (snd (executePipeline stringify config env query options spending memory)) =
           spending1"
proof -
  note thrown = executeStep_payment_failure [OF assms(6-10), of spending1]
  note run = required_failure_run [OF assms(1-5) thrown assms(11), of memory]
  show ?thesis unfolding run by (simp add: failedPipeline_def)
qed

theorem required_failure_error_text_witness:
  "re_services rejectingEnv \<noteq> []
   \<and> plannedPipeline sampleConfig rejectingEnv ''Summarize bitcoin news'' noOptions =
       Some samplePlan
   \<and> plan_steps samplePlan = [] @ sampleStep1 # [sampleStep2]
   \<and> allowed (canSpend (re_today rejectingEnv) (plan_estimatedTotalCost samplePlan)
        (newSpendingTracker 100000 1000000))
   \<and> find (\<lambda>s. svc_id s = step_serviceId sampleStep1) (re_services rejectingEnv) =
       Some bitcoinNews
   \<and> executePayment (cfg_network sampleConfig) (re_world rejectingEnv 0) bitcoinNews
        JUndefined = (failedPayment ''insufficient balance'', JUndefined)
   \<and> \<not> pay_success (failedPayment ''insufficient balance'')
   \<and> pay_error (failedPayment ''insufficient balance'') = Some ''insufficient balance''
   \<and> step_required sampleStep1 \<noteq> Some False
   \<and> \<not> pr_success (fst (executePipeline jsonText sampleConfig rejectingEnv
        ''Summarize bitcoin news'' noOptions (newSpendingTracker 100000 1000000) []))
   \<and> pr_error (fst (executePipeline jsonText sampleConfig rejectingEnv
        ''Summarize bitcoin news'' noOptions (newSpendingTracker 100000 1000000) [])) =
       Some ''Required step failed: insufficient balance''"
proof -
  have h1: "re_services rejectingEnv \<noteq> []"
    by (simp add: rejectingEnv_def)
  have h3: "plan_steps samplePlan = [] @ sampleStep1 # [sampleStep2]"
    by (simp add: samplePlan_def)
  have h5: "runSteps jsonText (cfg_network sampleConfig) (re_world rejectingEnv)
              (re_services rejectingEnv) (length (plan_steps samplePlan)) 0 []
              (initialContext rejectingEnv ''Summarize bitcoin news'')
              (newSpendingTracker 100000 1000000) =
            (None, initialContext rejectingEnv ''Summarize bitcoin news'',
             newSpendingTracker 100000 1000000, [])"
    by simp
  have h7: "executePayment (cfg_network sampleConfig)
              (re_world rejectingEnv (length ([] :: TaskStep list))) bitcoinNews
              (interpolateVariables jsonText
                 (ctx_variables (initialContext rejectingEnv ''Summarize bitcoin news''))
                 (step_requestData sampleStep1)) =
            (failedPayment ''insufficient balance'', JUndefined)"
    using rejecting_payment by (simp add: rejecting_request)
  have h8: "\<not> pay_success (failedPayment ''insufficient balance'')"
    and h9: "pay_error (failedPayment ''insufficient balance'') = Some ''insufficient balance''"
    and h10: "''insufficient balance'' \<noteq> []"
    by (simp_all add: failedPayment_def)
  have h11: "step_required sampleStep1 \<noteq> Some False"
    by (simp add: sampleStep1_def)
  from required_failure_error_text
    [OF h1 rejecting_planned h3 rejecting_afford h5 rejecting_find h7 h8 h9 h10 h11, of "[]"]
  have "\<not> pr_success (fst (executePipeline jsonText sampleConfig rejectingEnv
        ''Summarize bitcoin news'' noOptions (newSpendingTracker 100000 1000000) []))"
    and "pr_error (fst (executePipeline jsonText sampleConfig rejectingEnv
        ''Summarize bitcoin news'' noOptions (newSpendingTracker 100000 1000000) [])) =
       Some ''Required step failed: insufficient balance''"
    by simp_all
  with h1 rejecting_planned h3 rejecting_afford rejecting_find rejecting_payment h8 h9 h11
  show ?thesis by blast
qed


section \<open>Properties of the history log\<close>

lemma addToHistory_take:
  "length h \<le> MAX_HISTORY \<Longrightarrow> addToHistory e h = take MAX_HISTORY (e # h)"
proof (cases "length h = MAX_HISTORY")
  case True
  then have "butlast (e # h) = take MAX_HISTORY (e # h)"
    by (simp add: butlast_conv_take del: butlast.simps take_Suc_Cons)
  with True show ?thesis by (simp add: addToHistory_def Let_def del: butlast.simps)
next
  case False
  assume "length h \<le> MAX_HISTORY"
  with False have "length h < MAX_HISTORY" by simp
  then show ?thesis by (simp add: addToHistory_def Let_def)
qed

lemma addAllToHistory_take:
  "length h \<le> MAX_HISTORY \<Longrightarrow> addAllToHistory es h = take MAX_HISTORY (rev es @ h)"
proof (induction es arbitrary: h)
  case Nil
  then show ?case by simp
next
  case (Cons e es)
  have "length (addToHistory e h) \<le> MAX_HISTORY"
    using Cons.prems by (simp add: addToHistory_take)
  then have "addAllToHistory es (addToHistory e h) =
               take MAX_HISTORY (rev es @ addToHistory e h)"
    by (rule Cons.IH)
  also have "\<dots> = take MAX_HISTORY (rev es @ take MAX_HISTORY (e # h))"
    using Cons.prems by (simp add: addToHistory_take)
  also have "\<dots> = take MAX_HISTORY (rev es @ e # h)"
    by (simp add: take_add min_def)
  finally show ?case by simp
qed

text \<open>
  C9 (history bound). Starting from the empty log, after inserting more than
  \<^verbatim>\<open>MAX_HISTORY\<close> = 50 entries (\<open>es\<close>, oldest first) the log holds exactly 50 entries:
  the 50 last inserted ones, newest first, so its head is the entry inserted last and the
  first \<open>length es - 50\<close> insertions, the oldest among them, are dropped. The oldest
  inserted entry is absent (when the same entry was not inserted again later), and
  reading the 50 most recent entries gives exactly 50.
\<close>

theorem history_bound:
  assumes "length es > MAX_HISTORY"
  shows "length (addAllToHistory es []) = 50
       \<and> addAllToHistory es [] = take 50 (rev es)
       \<and> addAllToHistory es [] = rev (drop (length es - 50) es)
       \<and> hd (addAllToHistory es []) = last es
       \<and> (hd es \<notin> set (tl es) \<longrightarrow> hd es \<notin> set (addAllToHistory es []))
       \<and> length (take MAX_HISTORY (addAllToHistory es [])) = MAX_HISTORY"
proof -
  have eq: "addAllToHistory es [] = take 50 (rev es)"
    using addAllToHistory_take [of "[]" es] by (simp add: MAX_HISTORY_def)
  have len: "length (addAllToHistory es []) = 50"
    using assms by (simp add: eq MAX_HISTORY_def)
  have ne: "es \<noteq> []" using assms by auto
  have hd: "hd (addAllToHistory es []) = last es"
    using ne by (simp add: eq hd_rev)
  have dr: "addAllToHistory es [] = rev (drop (length es - 50) es)"
    by (simp add: eq take_rev)
  then have s: "set (addAllToHistory es []) = set (drop (length es - 50) es)"
    by simp
  have "set (drop (length es - 50) es) \<subseteq> set (tl es)"
  proof -
    obtain x xs where es: "es = x # xs" using ne by (cases es) auto
    have "length es - 50 = Suc (length xs - 50)"
      using assms es by (simp add: MAX_HISTORY_def)
    then have "drop (length es - 50) es = drop (length xs - 50) xs" using es by simp
    then show ?thesis using es by (simp add: set_drop_subset)
  qed
  then have ab: "hd es \<notin> set (tl es) \<longrightarrow> hd es \<notin> set (addAllToHistory es [])"
    using s by auto
  have rd: "length (take MAX_HISTORY (addAllToHistory es [])) = MAX_HISTORY"
    using len by (simp add: MAX_HISTORY_def)
  from eq len dr hd ab rd show ?thesis by blast
qed

theorem history_bound_witness:
  "length (map mkEntry [0..<51]) > MAX_HISTORY
   \<and> hd (map mkEntry [0..<51]) \<notin> set (tl (map mkEntry [0..<51]))
   \<and> length (addAllToHistory (map mkEntry [0..<51]) []) = 50
   \<and> hd (addAllToHistory (map mkEntry [0..<51]) []) = mkEntry 50
   \<and> mkEntry 0 \<notin> set (addAllToHistory (map mkEntry [0..<51]) [])"
proof -
  have h: "length (map mkEntry [0..<51]) > MAX_HISTORY"
    by (simp add: MAX_HISTORY_def)
  have d: "hd (map mkEntry [0..<51]) \<notin> set (tl (map mkEntry [0..<51]))"
    by (auto simp add: upt_rec [of 0] mkEntry_def)
  have z: "hd (map mkEntry [0..<51]) = mkEntry 0"
    by (simp add: upt_rec [of 0])
  have l: "last (map mkEntry [0..<51]) = mkEntry 50"
    by (simp add: last_map)
  from history_bound [OF h]
  have n: "length (addAllToHistory (map mkEntry [0..<51]) []) = 50"
    and f: "hd (addAllToHistory (map mkEntry [0..<51]) []) = last (map mkEntry [0..<51])"
    and a: "hd (map mkEntry [0..<51]) \<notin> set (tl (map mkEntry [0..<51])) \<longrightarrow>
            hd (map mkEntry [0..<51]) \<notin> set (addAllToHistory (map mkEntry [0..<51]) [])"
    by blast+
  from a d z have "mkEntry 0 \<notin> set (addAllToHistory (map mkEntry [0..<51]) [])"
    by (simp only: simp_thms)
  with h d n f l show ?thesis by (simp only: simp_thms)
qed

end
